theory Spec2Isabelle
  imports Main "HOL-Library.Word" "HOL-Library.Sublist" "HOL-Library.Finite_Map"
begin

unbundle bit_operations_syntax

section \<open>Strings\<close>

text \<open>
  The pipeline is Python 2 code: a \<open>str\<close> is a sequence of bytes, modelled as
  \<^typ>\<open>string\<close>. \<open>split_sep c s\<close> is \<open>s.split(c)\<close> for a one-character separator
  and \<open>join_sep sep xs\<close> is \<open>sep.join(xs)\<close>.
\<close>

fun split_sep :: "char \<Rightarrow> string \<Rightarrow> string list" where
  "split_sep c [] = [[]]"
| "split_sep c (x # xs) =
     (if x = c then [] # split_sep c xs
      else (case split_sep c xs of [] \<Rightarrow> [[x]] | y # ys \<Rightarrow> (x # y) # ys))"

fun join_sep :: "string \<Rightarrow> string list \<Rightarrow> string" where
  "join_sep sep [] = []"
| "join_sep sep (x # xs) = (if xs = [] then x else x @ sep @ join_sep sep xs)"

section \<open>SHA-1 (\<open>hashlib.sha1(...).hexdigest()\<close>)\<close>

text \<open>
  The digest of FIPS 180: the message is padded with \<open>0x80\<close>, zero bytes and its length
  in bits as a 64-bit big-endian number, cut into blocks of 64 bytes, and each block is
  compressed in 80 rounds over five 32-bit words.
\<close>

type_synonym u8 = "8 word"
type_synonym u32 = "32 word"
type_synonym u64 = "64 word"

definition be64 :: "u64 \<Rightarrow> u8 list" where
  "be64 n = map (\<lambda>i. ucast (drop_bit (8 * (7 - i)) n)) [0..<8]"

definition sha1_pad :: "u8 list \<Rightarrow> u8 list" where
  "sha1_pad m = m @ [0x80] @ replicate ((119 - length m mod 64) mod 64) 0
     @ be64 (8 * of_nat (length m))"

definition be32 :: "u8 list \<Rightarrow> u32" where
  "be32 bs = foldl (\<lambda>acc b. push_bit 8 acc OR ucast b) 0 bs"

definition block_words :: "u8 list \<Rightarrow> u32 list" where
  "block_words blk = map (\<lambda>i. be32 (take 4 (drop (4 * i) blk))) [0..<16]"

primrec sha1_extend :: "nat \<Rightarrow> u32 list \<Rightarrow> u32 list" where
  "sha1_extend 0 w = w"
| "sha1_extend (Suc k) w =
     sha1_extend k (w @ [word_rotl 1 (w ! (length w - 3) XOR w ! (length w - 8)
        XOR w ! (length w - 14) XOR w ! (length w - 16))])"

definition sha1_f :: "nat \<Rightarrow> u32 \<Rightarrow> u32 \<Rightarrow> u32 \<Rightarrow> u32" where
  "sha1_f t b c d =
     (if t < 20 then (b AND c) OR (NOT b AND d)
      else if t < 40 then b XOR c XOR d
      else if t < 60 then (b AND c) OR (b AND d) OR (c AND d)
      else b XOR c XOR d)"

definition sha1_k :: "nat \<Rightarrow> u32" where
  "sha1_k t =
     (if t < 20 then 0x5A827999
      else if t < 40 then 0x6ED9EBA1
      else if t < 60 then 0x8F1BBCDC
      else 0xCA62C1D6)"

type_synonym sha1_state = "u32 \<times> u32 \<times> u32 \<times> u32 \<times> u32"

fun sha1_round :: "u32 list \<Rightarrow> sha1_state \<Rightarrow> nat \<Rightarrow> sha1_state" where
  "sha1_round w (a, b, c, d, e) t =
     (word_rotl 5 a + sha1_f t b c d + e + sha1_k t + w ! t, a, word_rotl 30 b, c, d)"

fun sha1_block :: "sha1_state \<Rightarrow> u8 list \<Rightarrow> sha1_state" where
  "sha1_block (h0, h1, h2, h3, h4) blk =
     (case foldl (sha1_round (sha1_extend 64 (block_words blk))) (h0, h1, h2, h3, h4) [0..<80] of
        (a, b, c, d, e) \<Rightarrow> (h0 + a, h1 + b, h2 + c, h3 + d, h4 + e))"

definition sha1_init :: sha1_state where
  "sha1_init = (0x67452301, 0xEFCDAB89, 0x98BADCFE, 0x10325476, 0xC3D2E1F0)"

definition sha1_blocks :: "u8 list \<Rightarrow> u8 list list" where
  "sha1_blocks bs = map (\<lambda>i. take 64 (drop (64 * i) bs)) [0..<length bs div 64]"

definition sha1 :: "string \<Rightarrow> sha1_state" where
  "sha1 s = foldl sha1_block sha1_init (sha1_blocks (sha1_pad (map of_char s)))"

definition hex_digit :: "nat \<Rightarrow> char" where
  "hex_digit n = ''0123456789abcdef'' ! (n mod 16)"

definition hex32 :: "u32 \<Rightarrow> string" where
  "hex32 w = map (\<lambda>i. hex_digit (unat (take_bit 4 (drop_bit (4 * (7 - i)) w)))) [0..<8]"

definition sha1_hexdigest :: "string \<Rightarrow> string" where
  "sha1_hexdigest s =
     (case sha1 s of (h0, h1, h2, h3, h4) \<Rightarrow> hex32 h0 @ hex32 h1 @ hex32 h2 @ hex32 h3 @ hex32 h4)"

section \<open>The clock (\<open>time.strftime("%Y%m%d-%H%M%S")\<close>)\<close>

text \<open>
  \<open>time.strftime\<close> with no time tuple formats the local time of the call. The clock's
  reading is a parameter of the stage: a \<open>struct_time\<close>, whose finest field is the second.
  \<open>%Y\<close> is the year in decimal; \<open>%m\<close>, \<open>%d\<close>, \<open>%H\<close>, \<open>%M\<close> and \<open>%S\<close> are decimal numbers
  padded with zeros to two digits.
\<close>

record struct_time =
  tm_year :: nat
  tm_mon :: nat
  tm_mday :: nat
  tm_hour :: nat
  tm_min :: nat
  tm_sec :: nat

definition digit_char :: "nat \<Rightarrow> char" where
  "digit_char n = ''0123456789'' ! (n mod 10)"

fun decimal :: "nat \<Rightarrow> string" where
  "decimal n = (if n < 10 then [digit_char n] else decimal (n div 10) @ [digit_char n])"

definition zero_pad :: "nat \<Rightarrow> string \<Rightarrow> string" where
  "zero_pad w s = replicate (w - length s) (CHR ''0'') @ s"

definition strftime_Ymd_HMS :: "struct_time \<Rightarrow> string" where
  "strftime_Ymd_HMS t =
     decimal (tm_year t) @ zero_pad 2 (decimal (tm_mon t)) @ zero_pad 2 (decimal (tm_mday t))
     @ ''-'' @ zero_pad 2 (decimal (tm_hour t)) @ zero_pad 2 (decimal (tm_min t))
     @ zero_pad 2 (decimal (tm_sec t))"

section \<open>The filesystem\<close>

text \<open>
  The stages call \<open>os.path.isdir\<close>, \<open>shutil.rmtree\<close>, \<open>os.makedirs\<close>, \<open>open(..., "w")\<close>
  and \<open>os.rename\<close>. The filesystem they act on is a tree: a node is a regular file with
  its bytes or a directory with finitely many named entries. A path string is resolved
  lexically, as \<open>os.path.abspath\<close> does: relative to the working directory unless it
  starts with a slash, skipping empty components and \<open>.\<close>, and stepping to the parent at
  \<open>..\<close>. Symbolic links, permissions and disk space are not modelled.
\<close>

type_synonym path = "string list"

datatype node = File string | Dir "(string, node) fmap"

record filesystem =
  root :: node
  cwd :: path

datatype errno = ENOENT | EEXIST | ENOTDIR | EISDIR | ENOTEMPTY | EINVAL | EBUSY

datatype py_error = KeyError string | OSError errno | IOError errno

definition norm_step :: "path \<Rightarrow> string \<Rightarrow> path" where
  "norm_step p c =
     (if c = [] \<or> c = ''.'' then p else if c = ''..'' then butlast p else p @ [c])"

definition resolve :: "path \<Rightarrow> string \<Rightarrow> path" where
  "resolve wd s =
     foldl norm_step (if s \<noteq> [] \<and> hd s = CHR ''/'' then [] else wd) (split_sep (CHR ''/'') s)"

fun lookup :: "node \<Rightarrow> path \<Rightarrow> node option" where
  "lookup n [] = Some n"
| "lookup (File s) (c # cs) = None"
| "lookup (Dir m) (c # cs) = (case fmlookup m c of None \<Rightarrow> None | Some n \<Rightarrow> lookup n cs)"

text \<open>
  \<open>put p v n\<close> replaces the entry at \<open>p\<close> below \<open>n\<close> by \<open>v\<close> (\<open>None\<close> removes it, with
  everything below). It changes nothing when the parent of \<open>p\<close> is not a directory.
\<close>

fun put :: "path \<Rightarrow> node option \<Rightarrow> node \<Rightarrow> node" where
  "put [] v n = (case v of None \<Rightarrow> n | Some n' \<Rightarrow> n')"
| "put (c # cs) v (File s) = File s"
| "put (c # cs) v (Dir m) =
     (if cs = [] then (case v of None \<Rightarrow> Dir (fmdrop c m) | Some n' \<Rightarrow> Dir (fmupd c n' m))
      else (case fmlookup m c of None \<Rightarrow> Dir m | Some n \<Rightarrow> Dir (fmupd c (put cs v n) m)))"

definition node_at :: "filesystem \<Rightarrow> string \<Rightarrow> node option" where
  "node_at fs s = (if s = [] then None else lookup (root fs) (resolve (cwd fs) s))"

definition isdir :: "filesystem \<Rightarrow> string \<Rightarrow> bool" where
  "isdir fs s = (case node_at fs s of Some (Dir m) \<Rightarrow> True | _ \<Rightarrow> False)"

definition mkdir_at :: "node \<Rightarrow> path \<Rightarrow> py_error + node" where
  "mkdir_at r p =
     (case lookup r p of
        Some n \<Rightarrow> Inl (OSError EEXIST)
      | None \<Rightarrow>
         (case lookup r (butlast p) of
            None \<Rightarrow> Inl (OSError ENOENT)
          | Some (File s) \<Rightarrow> Inl (OSError ENOTDIR)
          | Some (Dir m) \<Rightarrow> Inr (put p (Some (Dir fmempty)) r)))"

text \<open>
  \<open>os.makedirs\<close>: when the parent is missing it is made first, by the same function, and
  a parent that turns out to exist is not an error; then the directory itself is made.
\<close>

function makedirs_at :: "node \<Rightarrow> path \<Rightarrow> py_error + node" where
  "makedirs_at r p =
     (if p \<noteq> [] \<and> butlast p \<noteq> [] \<and> lookup r (butlast p) = None
      then (case makedirs_at r (butlast p) of
              Inl e \<Rightarrow> (if e = OSError EEXIST then mkdir_at r p else Inl e)
            | Inr r' \<Rightarrow> mkdir_at r' p)
      else mkdir_at r p)"
  by pat_completeness auto
termination
  by (relation "measure (\<lambda>(r, p). length p)") auto

definition makedirs :: "filesystem \<Rightarrow> string \<Rightarrow> py_error option \<times> filesystem" where
  "makedirs fs s =
     (if s = [] then (Some (OSError ENOENT), fs)
      else (case makedirs_at (root fs) (resolve (cwd fs) s) of
              Inl e \<Rightarrow> (Some e, fs)
            | Inr r' \<Rightarrow> (None, fs\<lparr>root := r'\<rparr>)))"

text \<open>
  \<open>shutil.rmtree\<close> with its default error handler: it raises when the path is not a
  directory, and otherwise removes the directory with everything below it. The root
  directory is emptied, and removing it then fails.
\<close>

definition rmtree :: "filesystem \<Rightarrow> string \<Rightarrow> py_error option \<times> filesystem" where
  "rmtree fs s =
     (if s = [] then (Some (OSError ENOENT), fs)
      else (case lookup (root fs) (resolve (cwd fs) s) of
              None \<Rightarrow> (Some (OSError ENOENT), fs)
            | Some (File c) \<Rightarrow> (Some (OSError ENOTDIR), fs)
            | Some (Dir m) \<Rightarrow>
                (if resolve (cwd fs) s = [] then (Some (OSError EBUSY), fs\<lparr>root := Dir fmempty\<rparr>)
                 else (None, fs\<lparr>root := put (resolve (cwd fs) s) None (root fs)\<rparr>))))"

text \<open>\<open>open(path, "w").close()\<close>: the file is created empty, or truncated when it exists.\<close>

definition open_w_close :: "filesystem \<Rightarrow> string \<Rightarrow> py_error option \<times> filesystem" where
  "open_w_close fs s =
     (if s = [] then (Some (IOError ENOENT), fs)
      else (case lookup (root fs) (resolve (cwd fs) s) of
              Some (Dir m) \<Rightarrow> (Some (IOError EISDIR), fs)
            | _ \<Rightarrow>
               (case lookup (root fs) (butlast (resolve (cwd fs) s)) of
                  None \<Rightarrow> (Some (IOError ENOENT), fs)
                | Some (File c) \<Rightarrow> (Some (IOError ENOTDIR), fs)
                | Some (Dir m) \<Rightarrow>
                    (None, fs\<lparr>root := put (resolve (cwd fs) s) (Some (File [])) (root fs)\<rparr>))))"

text \<open>
  \<open>os.rename\<close> (POSIX \<open>rename(2)\<close>): a file replaces an existing file; a directory replaces
  only an empty directory and cannot be moved below itself; renaming a path to itself
  does nothing.
\<close>

definition rename_at :: "node \<Rightarrow> path \<Rightarrow> path \<Rightarrow> py_error + node" where
  "rename_at r src dst =
     (case lookup r src of
        None \<Rightarrow> Inl (OSError ENOENT)
      | Some n \<Rightarrow>
         (if src = [] \<or> dst = [] then Inl (OSError EBUSY)
          else if src = dst then Inr r
          else (case lookup r (butlast dst) of
                  None \<Rightarrow> Inl (OSError ENOENT)
                | Some (File c) \<Rightarrow> Inl (OSError ENOTDIR)
                | Some (Dir pm) \<Rightarrow>
                   (case n of
                      File c \<Rightarrow>
                        (case lookup r dst of
                           Some (Dir m) \<Rightarrow> Inl (OSError EISDIR)
                         | _ \<Rightarrow> Inr (put dst (Some n) (put src None r)))
                    | Dir sm \<Rightarrow>
                        (if prefix src dst then Inl (OSError EINVAL)
                         else (case lookup r dst of
                                 Some (File c) \<Rightarrow> Inl (OSError ENOTDIR)
                               | Some (Dir m) \<Rightarrow>
                                   (if m = fmempty then Inr (put dst (Some n) (put src None r))
                                    else Inl (OSError ENOTEMPTY))
                               | None \<Rightarrow> Inr (put dst (Some n) (put src None r))))))))"

definition rename :: "filesystem \<Rightarrow> string \<Rightarrow> string \<Rightarrow> py_error option \<times> filesystem" where
  "rename fs s d =
     (if s = [] \<or> d = [] then (Some (OSError ENOENT), fs)
      else (case rename_at (root fs) (resolve (cwd fs) s) (resolve (cwd fs) d) of
              Inl e \<Rightarrow> (Some e, fs)
            | Inr r' \<Rightarrow> (None, fs\<lparr>root := r'\<rparr>)))"

section \<open>Items\<close>

text \<open>
  An item is the dictionary the stages read and write. \<open>item_name\<close> and \<open>data_dir\<close> are set
  by the framework before the first stage of this file runs; \<open>url_list\<close>, \<open>item_dir\<close> and
  \<open>warc_file_base\<close> are absent until a stage assigns them, and reading an absent key
  raises \<open>KeyError\<close>. \<open>assigned\<close> is the history of the assignments \<open>item[key] = value\<close>
  that the stages of this file have executed, and \<open>log\<close> collects \<open>item.log_output\<close>.
\<close>

record item =
  item_name :: string
  data_dir :: string
  url_list :: "string list option"
  item_dir :: "string option"
  warc_file_base :: "string option"
  assigned :: "string list"
  log :: "string list"

definition log_output :: "item \<Rightarrow> string \<Rightarrow> item" where
  "log_output it line = it\<lparr>log := log it @ [line]\<rparr>"

definition item_get :: "item \<Rightarrow> string \<Rightarrow> string option" where
  "item_get it k =
     (if k = ''item_name'' then Some (item_name it)
      else if k = ''data_dir'' then Some (data_dir it)
      else if k = ''item_dir'' then item_dir it
      else if k = ''warc_file_base'' then warc_file_base it
      else None)"

text \<open>
  A format string with \<open>%(key)s\<close> fields, applied to an item with \<open>%\<close>: the fields are read
  from left to right, and the first absent key raises \<open>KeyError\<close>.
\<close>

datatype piece = Txt string | Fld string

fun interpolate :: "piece list \<Rightarrow> item \<Rightarrow> py_error + string" where
  "interpolate [] it = Inr []"
| "interpolate (Txt s # ps) it =
     (case interpolate ps it of Inl e \<Rightarrow> Inl e | Inr r \<Rightarrow> Inr (s @ r))"
| "interpolate (Fld k # ps) it =
     (case item_get it k of
        None \<Rightarrow> Inl (KeyError k)
      | Some v \<Rightarrow> (case interpolate ps it of Inl e \<Rightarrow> Inl e | Inr r \<Rightarrow> Inr (v @ r)))"

section \<open>The stages of \<open>pipeline.py\<close>\<close>

datatype outcome = Done | Raised py_error

text \<open>
  \<open>PrepareDirectories.process\<close>, with the stage's \<open>warc_prefix\<close> and the reading of the
  clock at the call of \<open>time.strftime\<close>. An exception leaves the item and the filesystem
  as they are at the statement that raises.
\<close>

definition PrepareDirectories_process ::
  "string \<Rightarrow> struct_time \<Rightarrow> item \<times> filesystem \<Rightarrow> outcome \<times> item \<times> filesystem" where
  "PrepareDirectories_process warc_prefix now = (\<lambda>(it, fs).
     let name = item_name it;
         urls = split_sep (CHR '','') name;
         it1 = it\<lparr>url_list := Some urls, assigned := assigned it @ [''url_list'']\<rparr>;
         it2 = foldl (\<lambda>i url. log_output i (''URL: '' @ url)) it1 urls;
         truncated_item_name = sha1_hexdigest name;
         dirname = join_sep ''/'' [data_dir it2, truncated_item_name];
         (e1, fs1) = (if isdir fs dirname then rmtree fs dirname else (None, fs))
     in case e1 of
          Some e \<Rightarrow> (Raised e, it2, fs1)
        | None \<Rightarrow>
           (case makedirs fs1 dirname of
              (Some e, fs2) \<Rightarrow> (Raised e, it2, fs2)
            | (None, fs2) \<Rightarrow>
               (let it3 = it2\<lparr>item_dir := Some dirname,
                              assigned := assigned it2 @ [''item_dir'']\<rparr>;
                    it4 = it3\<lparr>warc_file_base :=
                                Some (warc_prefix @ ''-'' @ truncated_item_name @ ''-''
                                      @ strftime_Ymd_HMS now),
                              assigned := assigned it3 @ [''warc_file_base'']\<rparr>
                in case interpolate [Fld ''item_dir'', Txt ''/'', Fld ''warc_file_base'',
                                     Txt ''.warc.gz''] it4 of
                     Inl e \<Rightarrow> (Raised e, it4, fs2)
                   | Inr placeholder \<Rightarrow>
                      (case open_w_close fs2 placeholder of
                         (Some e, fs3) \<Rightarrow> (Raised e, it4, fs3)
                       | (None, fs3) \<Rightarrow> (Done, it4, fs3)))))"

text \<open>\<open>MoveFiles.process\<close>: the two arguments of \<open>os.rename\<close> are formatted first.\<close>

definition MoveFiles_process :: "item \<times> filesystem \<Rightarrow> outcome \<times> item \<times> filesystem" where
  "MoveFiles_process = (\<lambda>(it, fs).
     case interpolate [Fld ''item_dir'', Txt ''/'', Fld ''warc_file_base'', Txt ''.warc.gz''] it of
       Inl e \<Rightarrow> (Raised e, it, fs)
     | Inr src \<Rightarrow>
        (case interpolate [Fld ''data_dir'', Txt ''/'', Fld ''warc_file_base'', Txt ''.warc.gz''] it of
           Inl e \<Rightarrow> (Raised e, it, fs)
         | Inr dst \<Rightarrow>
            (case rename fs src dst of
               (Some e, fs1) \<Rightarrow> (Raised e, it, fs1)
             | (None, fs1) \<Rightarrow>
                (case interpolate [Fld ''item_dir''] it of
                   Inl e \<Rightarrow> (Raised e, it, fs1)
                 | Inr d \<Rightarrow>
                    (case rmtree fs1 d of
                       (Some e, fs2) \<Rightarrow> (Raised e, it, fs2)
                     | (None, fs2) \<Rightarrow> (Done, it, fs2))))))"

section \<open>The downloader's command line\<close>

text \<open>
  \<open>wget_args\<close> as the file builds it: \<open>WGET_LUA\<close> is the executable that
  \<open>find_executable\<close> found, and \<open>bind_address\<close> the optional global of that name.
  \<open>WgetArgFactory.realize\<close> formats every \<open>ItemInterpolation\<close> with the item and appends
  the item's \<open>url_list\<close>.
\<close>

datatype arg = Plain string | ItemInterpolation "piece list"

definition VERSION :: string where
  "VERSION = ''20131227.01''"

definition USER_AGENT :: string where
  "USER_AGENT = ''Mozilla/5.0 (Windows; U; Windows NT 6.1; en-US) AppleWebKit/533.20.25 (KHTML, like Gecko) Version/5.0.4 Safari/533.20.27''"

definition wget_args :: "string \<Rightarrow> string option \<Rightarrow> arg list" where
  "wget_args WGET_LUA bind_address =
     [Plain WGET_LUA,
      Plain ''-U'', Plain USER_AGENT,
      Plain ''-nv'',
      Plain ''-o'', ItemInterpolation [Fld ''item_dir'', Txt ''/wget.log''],
      Plain ''--lua-script'', Plain ''ptch.lua'',
      Plain ''--no-check-certificate'',
      Plain ''--output-document'', ItemInterpolation [Fld ''item_dir'', Txt ''/wget.tmp''],
      Plain ''--truncate-output'',
      Plain ''-e'', Plain ''robots=off'',
      Plain ''--rotate-dns'',
      Plain ''--page-requisites'',
      Plain ''--timeout'', Plain ''60'',
      Plain ''--tries'', Plain ''inf'',
      Plain ''--waitretry'', Plain ''120'',
      Plain ''--span-hosts'',
      Plain ''--domains'', Plain ''ptch.com,ptchcdn.com,viewptch.ptchcdn.com,site-images.ptchcdn.com,site-nav.ptchcdn.com,assets.ptchcdn.com'',
      Plain ''--warc-file'', ItemInterpolation [Fld ''item_dir'', Txt ''/'', Fld ''warc_file_base''],
      Plain ''--warc-header'', Plain ''operator: Archive Team'',
      Plain ''--warc-header'', Plain (''ptch-dld-script-version: '' @ VERSION),
      Plain ''--warc-header'', ItemInterpolation [Txt ''wretch-user: '', Fld ''item_name'']]
     @ (case bind_address of None \<Rightarrow> [] | Some a \<Rightarrow> [Plain ''--bind-address'', Plain a])"

fun realize :: "arg list \<Rightarrow> item \<Rightarrow> py_error + string list" where
  "realize [] it = Inr []"
| "realize (Plain s # as) it =
     (case realize as it of Inl e \<Rightarrow> Inl e | Inr r \<Rightarrow> Inr (s # r))"
| "realize (ItemInterpolation ps # as) it =
     (case interpolate ps it of
        Inl e \<Rightarrow> Inl e
      | Inr s \<Rightarrow> (case realize as it of Inl e \<Rightarrow> Inl e | Inr r \<Rightarrow> Inr (s # r)))"

definition WgetArgFactory_realize :: "string \<Rightarrow> string option \<Rightarrow> item \<Rightarrow> py_error + string list" where
  "WgetArgFactory_realize WGET_LUA bind_address it =
     (case realize (wget_args WGET_LUA bind_address) it of
        Inl e \<Rightarrow> Inl e
      | Inr r \<Rightarrow> (case url_list it of None \<Rightarrow> Inl (KeyError ''url_list'') | Some us \<Rightarrow> Inr (r @ us)))"

section \<open>The pipeline's configuration\<close>

text \<open>
  The values that the \<open>Pipeline(...)\<close> expression passes to the framework's stages:
  \<open>PrepareDirectories(warc_prefix="ptch")\<close>,
  \<open>WgetDownload(..., max_tries=5, accept_on_exit_code=[0, 8])\<close> and
  \<open>LimitConcurrent(NumberConfigValue(min=1, max=4, default="1", ...), ...)\<close>.
\<close>

definition warc_prefix_ptch :: string where
  "warc_prefix_ptch = ''ptch''"

definition max_tries :: nat where
  "max_tries = 5"

definition accept_on_exit_code :: "int list" where
  "accept_on_exit_code = [0, 8]"

record number_config_value =
  cv_min :: int
  cv_max :: int
  cv_default :: string
  cv_name :: string
  cv_title :: string
  cv_description :: string

definition rsync_threads :: number_config_value where
  "rsync_threads = \<lparr>cv_min = 1, cv_max = 4, cv_default = ''1'',
     cv_name = ''shared:rsync_threads'', cv_title = ''Rsync threads'',
     cv_description = ''The maximum number of concurrent uploads.''\<rparr>"

section \<open>The framework's stages\<close>

text \<open>
  \<open>WgetDownload\<close>, \<open>LimitConcurrent\<close> and \<open>NumberConfigValue\<close> are classes of the seesaw
  library, which \<open>pipeline.py\<close> imports and configures; their code is not part of the
  repository. They are modelled from the specification.
\<close>

type_synonym reason = "int \<times> string"

datatype stage_result = Success | RetryableFailure reason | FatalFailure reason

text \<open>
  Modelled from the spec: the Subprocess Runner (the body of seesaw's \<open>WgetDownload\<close> is
  missing). The exit code of the external process is mapped against the acceptable
  codes: \<open>Success\<close> if it is among them, otherwise \<open>RetryableFailure\<close> carrying the exit
  code and the path of the tool's log file.
\<close>

definition subprocess_runner :: "int list \<Rightarrow> string \<Rightarrow> int \<Rightarrow> stage_result" where
  "subprocess_runner acceptable log_file exit_code =
     (if exit_code \<in> set acceptable then Success else RetryableFailure (exit_code, log_file))"

text \<open>
  Modelled from the spec: the Retry Policy (seesaw's retry loop is missing). \<open>stage i\<close>
  is the result of the \<open>i\<close>-th invocation of the wrapped stage, counted from 0, and \<open>n\<close>
  the number of invocations made so far. On \<open>RetryableFailure\<close> the stage is invoked
  again while attempts remain; after the last attempt the failure becomes a
  \<open>FatalFailure\<close>; \<open>Success\<close> and \<open>FatalFailure\<close> end the loop at once. The result is the
  number of invocations made and the outcome.
\<close>

function retry_policy :: "nat \<Rightarrow> (nat \<Rightarrow> stage_result) \<Rightarrow> nat \<Rightarrow> nat \<times> stage_result" where
  "retry_policy K stage n =
     (case stage n of
        Success \<Rightarrow> (Suc n, Success)
      | FatalFailure f \<Rightarrow> (Suc n, FatalFailure f)
      | RetryableFailure f \<Rightarrow>
          (if Suc n < K then retry_policy K stage (Suc n) else (Suc n, FatalFailure f)))"
  by pat_completeness auto
termination
  by (relation "measure (\<lambda>(K, stage, n). K - n)") auto

text \<open>
  Modelled from the spec: the Concurrency Gate (seesaw's \<open>LimitConcurrent\<close> is missing).
  An item arrives at the gate and waits; it enters the gated stage only while fewer
  than the ceiling \<open>N\<close> items are executing it; it releases its permit when the stage returns.
  The items are numbered, and an event that cannot happen in a state leaves it as it
  is. Any interleaving of the items is a list of events.
\<close>

datatype gate_event = Arrive nat | Enter nat | Exit nat

record gate_state =
  waiting :: "nat list"
  executing :: "nat list"

fun gate_step :: "nat \<Rightarrow> gate_state \<Rightarrow> gate_event \<Rightarrow> gate_state" where
  "gate_step N s (Arrive i) = s\<lparr>waiting := waiting s @ [i]\<rparr>"
| "gate_step N s (Enter i) =
     (if i \<in> set (waiting s) \<and> length (executing s) < N
      then s\<lparr>waiting := remove1 i (waiting s), executing := executing s @ [i]\<rparr>
      else s)"
| "gate_step N s (Exit i) =
     (if i \<in> set (executing s) then s\<lparr>executing := remove1 i (executing s)\<rparr> else s)"

definition run_gated :: "nat \<Rightarrow> gate_event list \<Rightarrow> gate_state" where
  "run_gated N evs = foldl (gate_step N) \<lparr>waiting = [], executing = []\<rparr> evs"

text \<open>
  Modelled from the spec: the ceiling is a configuration value between the minimum and
  the maximum of its \<open>NumberConfigValue\<close>, and the default is the number that the
  \<open>default\<close> string denotes.
\<close>

definition valid_ceiling :: "number_config_value \<Rightarrow> nat \<Rightarrow> bool" where
  "valid_ceiling cfg n \<longleftrightarrow> cv_min cfg \<le> int n \<and> int n \<le> cv_max cfg"

definition default_ceiling :: "number_config_value \<Rightarrow> nat option" where
  "default_ceiling cfg =
     (if cv_default cfg \<noteq> [] \<and> list_all (\<lambda>c. c \<in> set ''0123456789'') (cv_default cfg)
      then Some (foldl (\<lambda>acc c. 10 * acc + (of_char c - 48)) (0::nat) (cv_default cfg))
      else None)"

section \<open>The pipeline\<close>

text \<open>
  The stages that \<open>pipeline.py\<close> lists in \<open>Pipeline(...)\<close> after \<open>GetItemFromTracker\<close>, the
  stage that creates the item: \<open>PrepareDirectories(warc_prefix="ptch")\<close>, \<open>WgetDownload\<close>,
  \<open>PrepareStatsForTracker\<close>, \<open>MoveFiles()\<close>,
  \<open>LimitConcurrent(NumberConfigValue(...), UploadWithTracker(...))\<close> and
  \<open>SendDoneToTracker\<close>, in that order. \<open>PrepareDirectories\<close> and \<open>MoveFiles\<close> are the
  classes of \<open>pipeline.py\<close>; the others are classes of the seesaw library.
\<close>

datatype framework_stage =
  WgetDownload | PrepareStatsForTracker | UploadWithTracker | SendDoneToTracker

datatype stage =
  PrepareDirectories string
  | MoveFiles
  | LimitConcurrent number_config_value stage
  | Framework framework_stage

definition pipeline :: "stage list" where
  "pipeline = [PrepareDirectories warc_prefix_ptch, Framework WgetDownload,
     Framework PrepareStatsForTracker, MoveFiles,
     LimitConcurrent rsync_threads (Framework UploadWithTracker),
     Framework SendDoneToTracker]"

text \<open>
  Modelled from the spec: what a stage of the seesaw library does to an item (the bodies
  of \<open>WgetDownload\<close>, \<open>PrepareStatsForTracker\<close>, \<open>UploadWithTracker\<close> and
  \<open>SendDoneToTracker\<close> are missing). Such a stage succeeds or fails, appends the lines of
  its outcome to the item's log, which is append-only, and leaves the fields of the item
  as they are (sections 3, 4.4 and 7 of the spec; the stats that a stage records are kept
  under a key of their own, which the item record does not carry). Whether it succeeds,
  the lines it logs and what it does to the filesystem depend on the external tools and
  on the network: they are a parameter, the \<open>world\<close>.
\<close>

type_synonym world =
  "framework_stage \<Rightarrow> item \<times> filesystem \<Rightarrow> bool \<times> string list \<times> filesystem"

text \<open>
  One stage run on an item, with whether it succeeded: the two stages of \<open>pipeline.py\<close>
  by their \<open>process\<close> methods, which succeed unless they raise; a stage of the library as
  the world has it; a stage under \<open>LimitConcurrent\<close> as the stage itself, since the gate
  only makes the item wait. The pipeline runs its stages in order on the item and stops
  at the first that fails.
\<close>

fun run_stage ::
  "world \<Rightarrow> struct_time \<Rightarrow> stage \<Rightarrow> item \<times> filesystem \<Rightarrow> bool \<times> item \<times> filesystem" where
  "run_stage w now (PrepareDirectories wp) s =
     (case PrepareDirectories_process wp now s of (r, s') \<Rightarrow> (r = Done, s'))"
| "run_stage w now MoveFiles s =
     (case MoveFiles_process s of (r, s') \<Rightarrow> (r = Done, s'))"
| "run_stage w now (LimitConcurrent cfg st) s = run_stage w now st s"
| "run_stage w now (Framework f) s =
     (case w f s of (ok, lines, fs') \<Rightarrow> (ok, foldl log_output (fst s) lines, fs'))"

fun run_stages ::
  "world \<Rightarrow> struct_time \<Rightarrow> stage list \<Rightarrow> item \<times> filesystem \<Rightarrow> bool \<times> item \<times> filesystem" where
  "run_stages w now [] s = (True, s)"
| "run_stages w now (st # sts) s =
     (case run_stage w now st s of
        (ok, s') \<Rightarrow> if ok then run_stages w now sts s' else (False, s'))"

text \<open>
  Whether a stage is \<open>PrepareDirectories\<close>, gated or not.
\<close>

fun prepares :: "stage \<Rightarrow> bool" where
  "prepares (PrepareDirectories wp) = True"
| "prepares (LimitConcurrent cfg st) = prepares st"
| "prepares MoveFiles = False"
| "prepares (Framework f) = False"

section \<open>Names that are one path component\<close>

definition plain_name :: "string \<Rightarrow> bool" where
  "plain_name n \<longleftrightarrow> n \<noteq> [] \<and> n \<noteq> ''.'' \<and> n \<noteq> ''..'' \<and> CHR ''/'' \<notin> set n"

text \<open>
  The directory that the path \<open>s @ ''/'' @ n\<close> is resolved in: the root when \<open>s\<close> is empty
  (the path then starts with a slash), and the directory named by \<open>s\<close> otherwise.
\<close>

definition base_path :: "path \<Rightarrow> string \<Rightarrow> path" where
  "base_path wd s = (if s = [] then [] else resolve wd s)"

section \<open>Names for the strings that \<open>PrepareDirectories.process\<close> computes\<close>

text \<open>
  \<open>dirname_of\<close> is the stage's \<open>dirname\<close>, \<open>warc_file_base_of\<close> the value it assigns to
  \<open>warc_file_base\<close>, \<open>warc_gz_of\<close> the name of the output file and \<open>placeholder_of\<close> the path
  it opens. \<open>logged_item\<close> is the item once the URLs are logged and \<open>prepared_item\<close> the
  item once the stage has made its assignments. \<open>rmtree_if_isdir\<close> is the conditional
  statement that removes an existing staging directory.
\<close>

definition dirname_of :: "item \<Rightarrow> string" where
  "dirname_of it = join_sep ''/'' [data_dir it, sha1_hexdigest (item_name it)]"

definition warc_file_base_of :: "string \<Rightarrow> struct_time \<Rightarrow> item \<Rightarrow> string" where
  "warc_file_base_of wp now it =
     wp @ ''-'' @ sha1_hexdigest (item_name it) @ ''-'' @ strftime_Ymd_HMS now"

definition warc_gz_of :: "string \<Rightarrow> struct_time \<Rightarrow> item \<Rightarrow> string" where
  "warc_gz_of wp now it = warc_file_base_of wp now it @ ''.warc.gz''"

definition placeholder_of :: "string \<Rightarrow> struct_time \<Rightarrow> item \<Rightarrow> string" where
  "placeholder_of wp now it = dirname_of it @ ''/'' @ warc_gz_of wp now it"

definition logged_item :: "item \<Rightarrow> item" where
  "logged_item it = it\<lparr>url_list := Some (split_sep (CHR '','') (item_name it)),
     assigned := assigned it @ [''url_list''],
     log := log it @ map ((@) ''URL: '') (split_sep (CHR '','') (item_name it))\<rparr>"

definition prepared_item :: "string \<Rightarrow> struct_time \<Rightarrow> item \<Rightarrow> item" where
  "prepared_item wp now it = (logged_item it)\<lparr>item_dir := Some (dirname_of it),
     warc_file_base := Some (warc_file_base_of wp now it),
     assigned := assigned it @ [''url_list'', ''item_dir'', ''warc_file_base'']\<rparr>"

definition rmtree_if_isdir :: "filesystem \<Rightarrow> string \<Rightarrow> py_error option \<times> filesystem" where
  "rmtree_if_isdir fs d = (if isdir fs d then rmtree fs d else (None, fs))"

section \<open>Example inputs\<close>

text \<open>
  An item as the tracker stage hands it to \<open>PrepareDirectories\<close>: named, with the data
  directory of the run, and nothing assigned yet. \<open>stale_fs h\<close> is a filesystem whose data
  directory holds a staging directory \<open>h\<close> with a file left by an earlier attempt, and
  \<open>noon\<close> and \<open>later\<close> are two readings of the clock.
\<close>

definition fresh_item :: "string \<Rightarrow> string \<Rightarrow> item" where
  "fresh_item name dir = \<lparr>item_name = name, data_dir = dir, url_list = None, item_dir = None,
     warc_file_base = None, assigned = [], log = []\<rparr>"

definition stale_fs :: "string \<Rightarrow> filesystem" where
  "stale_fs h = \<lparr>root = Dir (fmupd ''data'' (Dir (fmupd h
       (Dir (fmupd ''wget.log'' (File ''old'') fmempty)) fmempty)) fmempty), cwd = []\<rparr>"

text \<open>
  \<open>fetched_fs h f\<close> is a filesystem as the downloader leaves it: the staging directory \<open>h\<close>
  holds the output file \<open>f\<close>, the downloader's log and its temporary document.
\<close>

definition fetched_fs :: "string \<Rightarrow> string \<Rightarrow> filesystem" where
  "fetched_fs h f = \<lparr>root = Dir (fmupd ''data'' (Dir (fmupd h
       (Dir (fmupd f (File ''WARC/1.0'')
          (fmupd ''wget.log'' (File ''log'') (fmupd ''wget.tmp'' (File []) fmempty))))
        fmempty)) fmempty), cwd = []\<rparr>"

definition noon :: struct_time where
  "noon = \<lparr>tm_year = 2013, tm_mon = 12, tm_mday = 27, tm_hour = 12, tm_min = 0, tm_sec = 0\<rparr>"

definition later :: struct_time where
  "later = \<lparr>tm_year = 2013, tm_mon = 12, tm_mday = 27, tm_hour = 12, tm_min = 0, tm_sec = 7\<rparr>"

text \<open>
  \<open>blocked_fs h\<close> is a filesystem whose data directory holds a regular file named \<open>h\<close>,
  where the staging directory of an item is to be made. In \<open>quiet_world\<close> every stage of
  the library succeeds, logs one line and leaves the filesystem as it is.
\<close>

definition blocked_fs :: "string \<Rightarrow> filesystem" where
  "blocked_fs h = \<lparr>root = Dir (fmupd ''data'' (Dir (fmupd h (File ''x'') fmempty)) fmempty),
     cwd = []\<rparr>"

definition quiet_world :: world where
  "quiet_world f s = (True, [''Finished''], snd s)"

section \<open>Properties\<close>

declare decimal.simps [simp del]
declare makedirs_at.simps [simp del]
declare retry_policy.simps [simp del]

subsection \<open>Splitting and joining\<close>

lemma split_sep_not_Nil: "split_sep c s \<noteq> []"
  by (induction s) (auto split: list.splits)

lemma join_split: "join_sep [c] (split_sep c s) = s"
  by (induction s) (auto simp: split_sep_not_Nil split: list.splits)

lemma split_sep_no_sep: "c \<notin> set s \<Longrightarrow> split_sep c s = [s]"
  by (induction s) auto

lemma split_sep_append:
  "c \<notin> set n \<Longrightarrow> split_sep c (d @ c # n) = split_sep c d @ [n]"
  by (induction d) (auto simp: split_sep_no_sep split_sep_not_Nil split: list.splits)

lemma norm_step_plain: "plain_name n \<Longrightarrow> norm_step p n = p @ [n]"
  by (simp add: norm_step_def plain_name_def)

lemma resolve_child:
  assumes "s \<noteq> []" and "plain_name n"
  shows "resolve wd (s @ ''/'' @ n) = resolve wd s @ [n]"
proof -
  have "CHR ''/'' \<notin> set n" using assms(2) by (simp add: plain_name_def)
  then have "split_sep (CHR ''/'') (s @ ''/'' @ n) = split_sep (CHR ''/'') s @ [n]"
    by (simp add: split_sep_append)
  moreover have "hd (s @ ''/'' @ n) = hd s" using assms(1) by simp
  ultimately show ?thesis
    using assms by (simp add: resolve_def norm_step_plain)
qed

lemma hex_digit_in: "hex_digit n \<in> set ''0123456789abcdef''"
proof -
  have "n mod 16 < length ''0123456789abcdef''" by simp
  then show ?thesis unfolding hex_digit_def by (rule nth_mem)
qed

lemma set_hex32: "set (hex32 w) \<subseteq> set ''0123456789abcdef''"
  unfolding hex32_def using hex_digit_in by auto

lemma length_hex32: "length (hex32 w) = 8"
  by (simp add: hex32_def)

lemma length_sha1_hexdigest: "length (sha1_hexdigest s) = 40"
  by (simp add: sha1_hexdigest_def length_hex32 split: prod.splits)

lemma set_sha1_hexdigest: "set (sha1_hexdigest s) \<subseteq> set ''0123456789abcdef''"
proof -
  define H where "H = set ''0123456789abcdef''"
  have h: "set (hex32 w) \<subseteq> H" for w unfolding H_def by (rule set_hex32)
  obtain h0 h1 h2 h3 h4 where "sha1 s = (h0, h1, h2, h3, h4)"
    by (cases "sha1 s") auto
  then have "sha1_hexdigest s = hex32 h0 @ hex32 h1 @ hex32 h2 @ hex32 h3 @ hex32 h4"
    by (simp add: sha1_hexdigest_def)
  then have "set (sha1_hexdigest s) \<subseteq> H" using h by simp
  then show ?thesis unfolding H_def .
qed

lemma slash_notin_sha1_hexdigest: "CHR ''/'' \<notin> set (sha1_hexdigest s)"
proof -
  have "CHR ''/'' \<notin> set ''0123456789abcdef''" by simp
  then show ?thesis using set_sha1_hexdigest [of s] by blast
qed

lemma plain_sha1_hexdigest: "plain_name (sha1_hexdigest s)"
proof -
  have "length (sha1_hexdigest s) = 40" by (rule length_sha1_hexdigest)
  then have "sha1_hexdigest s \<noteq> [] \<and> sha1_hexdigest s \<noteq> ''.'' \<and> sha1_hexdigest s \<noteq> ''..''"
    by auto
  then show ?thesis using slash_notin_sha1_hexdigest [of s] by (simp add: plain_name_def)
qed

lemma digit_char_in: "digit_char n \<in> set ''0123456789''"
proof -
  have "n mod 10 < length ''0123456789''" by simp
  then show ?thesis unfolding digit_char_def by (rule nth_mem)
qed

lemma set_decimal: "set (decimal n) \<subseteq> set ''0123456789''"
proof (induction n rule: decimal.induct)
  case (1 n)
  show ?case
  proof (cases "n < 10")
    case True
    then show ?thesis using digit_char_in [of n] by (subst decimal.simps) simp
  next
    case False
    then show ?thesis using 1 digit_char_in [of n] by (subst decimal.simps) simp
  qed
qed

lemma set_zero_pad: "set (zero_pad w s) \<subseteq> insert (CHR ''0'') (set s)"
  by (auto simp: zero_pad_def)

lemma slash_notin_strftime: "CHR ''/'' \<notin> set (strftime_Ymd_HMS t)"
proof -
  have d: "CHR ''/'' \<notin> set (decimal n)" for n using set_decimal [of n] by auto
  have z: "CHR ''/'' \<notin> set (zero_pad w (decimal n))" for w n
    using set_zero_pad [of w "decimal n"] d [of n] by auto
  show ?thesis by (simp add: strftime_Ymd_HMS_def d z)
qed

subsection \<open>The filesystem tree\<close>

lemma lookup_append:
  "lookup r (p @ q) = (case lookup r p of None \<Rightarrow> None | Some n \<Rightarrow> lookup n q)"
proof (induction p arbitrary: r)
  case Nil
  show ?case by simp
next
  case (Cons c cs)
  show ?case by (cases r) (auto simp: Cons.IH split: option.splits)
qed

lemma lookup_parent_Dir:
  assumes "lookup r (q @ [c]) = Some n"
  shows "\<exists>m. lookup r q = Some (Dir m) \<and> fmlookup m c = Some n"
proof -
  from assms obtain k where k: "lookup r q = Some k" and "lookup k [c] = Some n"
    by (auto simp: lookup_append split: option.splits)
  then show ?thesis by (cases k) (auto split: option.splits)
qed

lemma lookup_put_prefix:
  "x \<noteq> [] \<Longrightarrow> lookup (put (q @ x) v r) q = map_option (put x v) (lookup r q)"
proof (induction q arbitrary: r)
  case Nil
  show ?case by simp
next
  case (Cons c cs)
  then show ?case by (cases r) (auto split: option.splits)
qed

lemma lookup_put_other:
  "\<not> prefix p q \<Longrightarrow> \<not> prefix q p \<Longrightarrow> lookup (put p v r) q = lookup r q"
proof (induction p arbitrary: q r)
  case Nil
  then show ?case by simp
next
  case (Cons c cs)
  then obtain d ds where q: "q = d # ds" by (cases q) auto
  show ?case
  proof (cases r)
    case (File s)
    then show ?thesis by simp
  next
    case (Dir m)
    show ?thesis
    proof (cases "d = c")
      case True
      with Cons.prems q have "\<not> prefix cs ds" "\<not> prefix ds cs" by auto
      then have "lookup (put cs v n) ds = lookup n ds" for n by (rule Cons.IH)
      moreover from \<open>\<not> prefix cs ds\<close> have "cs \<noteq> []" by auto
      ultimately show ?thesis using Dir q True by (auto split: option.splits)
    next
      case False
      then show ?thesis using Dir q by (auto split: option.splits)
    qed
  qed
qed

lemma lookup_put_child:
  assumes "lookup r q = Some (Dir m)"
  shows "lookup (put (q @ [c]) v r) q =
    Some (case v of None \<Rightarrow> Dir (fmdrop c m) | Some n \<Rightarrow> Dir (fmupd c n m))"
  using assms by (simp add: lookup_put_prefix)

lemma lookup_put_same:
  assumes "lookup r q = Some (Dir m)"
  shows "lookup (put (q @ [c]) v r) (q @ [c]) = v"
  using lookup_put_child [OF assms, of c v]
  by (auto simp: lookup_append split: option.splits)

lemma lookup_put_None:
  "p \<noteq> [] \<Longrightarrow> lookup (put p None r) p = None"
proof (induction p arbitrary: r)
  case Nil
  then show ?case by simp
next
  case (Cons c cs)
  then show ?case by (cases r) (auto split: option.splits)
qed

lemma lookup_None_append: "lookup r p = None \<Longrightarrow> lookup r (p @ q) = None"
  by (simp add: lookup_append)

lemma mkdir_at_Inr:
  assumes "mkdir_at r p = Inr r'"
  shows "p \<noteq> [] \<and> lookup r p = None \<and> (\<exists>m. lookup r (butlast p) = Some (Dir m))
    \<and> r' = put p (Some (Dir fmempty)) r"
proof -
  have "p \<noteq> []" using assms by (auto simp: mkdir_at_def)
  then show ?thesis using assms
    by (auto simp: mkdir_at_def split: option.splits node.splits)
qed

lemma mkdir_at_lookup:
  assumes "mkdir_at r p = Inr r'"
  shows "lookup r' p = Some (Dir fmempty)"
proof -
  from mkdir_at_Inr [OF assms] obtain m where p: "p \<noteq> []"
    and m: "lookup r (butlast p) = Some (Dir m)"
    and r': "r' = put p (Some (Dir fmempty)) r" by blast
  from p have "p = butlast p @ [last p]" by simp
  then show ?thesis using lookup_put_same [OF m, of "last p" "Some (Dir fmempty)"] r' by simp
qed

lemma makedirs_at_lookup:
  assumes "makedirs_at r p = Inr r'"
  shows "lookup r' p = Some (Dir fmempty)"
proof -
  from assms obtain r0 where "mkdir_at r0 p = Inr r'"
    by (subst (asm) makedirs_at.simps) (auto split: if_splits sum.splits)
  then show ?thesis by (rule mkdir_at_lookup)
qed

lemma makedirs_at_parent_exists:
  assumes "lookup r p = None" and "lookup r (butlast p) = Some (Dir m)"
  shows "makedirs_at r p = Inr (put p (Some (Dir fmempty)) r)"
  using assms by (subst makedirs_at.simps) (simp add: mkdir_at_def)

subsection \<open>The stages\<close>

lemma resolve_root_child:
  assumes "plain_name n"
  shows "resolve wd (''/'' @ n) = [n]"
proof -
  have "CHR ''/'' \<notin> set n" using assms by (simp add: plain_name_def)
  then have "split_sep (CHR ''/'') (''/'' @ n) = [[], n]"
    by (simp add: split_sep_no_sep)
  then show ?thesis using assms by (simp add: resolve_def norm_step_def plain_name_def)
qed

lemma resolve_join:
  "plain_name n \<Longrightarrow> resolve wd (s @ ''/'' @ n) = base_path wd s @ [n]"
  using resolve_child [of s n wd] resolve_root_child [of n wd]
  by (cases "s = []") (simp_all add: base_path_def)

lemma foldl_log_output:
  "foldl (\<lambda>i url. log_output i (f url)) it us = it\<lparr>log := log it @ map f us\<rparr>"
  by (induction us arbitrary: it) (simp_all add: log_output_def)

lemma interpolate_staged:
  "item_dir it = Some d \<Longrightarrow> warc_file_base it = Some b \<Longrightarrow>
   interpolate [Fld ''item_dir'', Txt ''/'', Fld ''warc_file_base'', Txt ''.warc.gz''] it
     = Inr (d @ ''/'' @ b @ ''.warc.gz'')"
  by (simp add: item_get_def)

lemma interpolate_durable:
  "warc_file_base it = Some b \<Longrightarrow>
   interpolate [Fld ''data_dir'', Txt ''/'', Fld ''warc_file_base'', Txt ''.warc.gz''] it
     = Inr (data_dir it @ ''/'' @ b @ ''.warc.gz'')"
  by (simp add: item_get_def)

lemma interpolate_item_dir:
  "item_dir it = Some d \<Longrightarrow> interpolate [Fld ''item_dir''] it = Inr d"
  by (simp add: item_get_def)

lemma PrepareDirectories_process_unfold:
  "PrepareDirectories_process wp now (it, fs) =
     (let urls = split_sep (CHR '','') (item_name it);
          h = sha1_hexdigest (item_name it);
          d = data_dir it @ ''/'' @ h;
          b = wp @ ''-'' @ h @ ''-'' @ strftime_Ymd_HMS now;
          it2 = it\<lparr>url_list := Some urls, assigned := assigned it @ [''url_list''],
                   log := log it @ map ((@) ''URL: '') urls\<rparr>;
          it4 = it2\<lparr>item_dir := Some d, warc_file_base := Some b,
                   assigned := assigned it @ [''url_list'', ''item_dir'', ''warc_file_base'']\<rparr>
      in case (if isdir fs d then rmtree fs d else (None, fs)) of
           (Some e, fs1) \<Rightarrow> (Raised e, it2, fs1)
         | (None, fs1) \<Rightarrow>
            (case makedirs fs1 d of
               (Some e, fs2) \<Rightarrow> (Raised e, it2, fs2)
             | (None, fs2) \<Rightarrow>
                (case open_w_close fs2 (d @ ''/'' @ b @ ''.warc.gz'') of
                   (Some e, fs3) \<Rightarrow> (Raised e, it4, fs3)
                 | (None, fs3) \<Rightarrow> (Done, it4, fs3))))"
  by (simp add: PrepareDirectories_process_def Let_def foldl_log_output interpolate_staged
      del: interpolate.simps split: prod.splits option.splits)

lemma prepare_url_list:
  "url_list (fst (snd (PrepareDirectories_process wp now (it, fs))))
     = Some (split_sep (CHR '','') (item_name it))"
  by (simp add: PrepareDirectories_process_unfold Let_def split: prod.splits option.splits)

subsection \<open>The operations on the filesystem\<close>

lemma rmtree_None:
  assumes "rmtree fs s = (None, fs')"
  shows "s \<noteq> [] \<and> resolve (cwd fs) s \<noteq> []
    \<and> (\<exists>m. lookup (root fs) (resolve (cwd fs) s) = Some (Dir m))
    \<and> fs' = fs\<lparr>root := put (resolve (cwd fs) s) None (root fs)\<rparr>"
  using assms by (auto simp: rmtree_def split: if_splits option.splits node.splits)

lemma rmtree_Dir:
  assumes "s \<noteq> []" and "resolve (cwd fs) s \<noteq> []"
    and "lookup (root fs) (resolve (cwd fs) s) = Some (Dir m)"
  shows "rmtree fs s = (None, fs\<lparr>root := put (resolve (cwd fs) s) None (root fs)\<rparr>)"
  using assms by (simp add: rmtree_def)

lemma makedirs_None:
  assumes "makedirs fs s = (None, fs')"
  shows "cwd fs' = cwd fs \<and> lookup (root fs') (resolve (cwd fs) s) = Some (Dir fmempty)"
  using assms
  by (auto simp: makedirs_def makedirs_at_lookup split: if_splits sum.splits)

lemma makedirs_parent_exists:
  assumes "s \<noteq> []" and "lookup (root fs) (resolve (cwd fs) s) = None"
    and "lookup (root fs) (butlast (resolve (cwd fs) s)) = Some (Dir m)"
  shows "makedirs fs s =
    (None, fs\<lparr>root := put (resolve (cwd fs) s) (Some (Dir fmempty)) (root fs)\<rparr>)"
  using assms by (simp add: makedirs_def makedirs_at_parent_exists)

lemma open_w_close_None:
  assumes "open_w_close fs s = (None, fs')"
  shows "s \<noteq> [] \<and> resolve (cwd fs) s \<noteq> []
    \<and> (\<exists>m. lookup (root fs) (butlast (resolve (cwd fs) s)) = Some (Dir m))
    \<and> fs' = fs\<lparr>root := put (resolve (cwd fs) s) (Some (File [])) (root fs)\<rparr>"
proof -
  have "resolve (cwd fs) s \<noteq> []"
    using assms by (auto simp: open_w_close_def split: if_splits option.splits node.splits)
  then show ?thesis
    using assms by (auto simp: open_w_close_def split: if_splits option.splits node.splits)
qed

lemma open_w_close_new:
  assumes "s \<noteq> []" and "lookup (root fs) (resolve (cwd fs) s) = None"
    and "lookup (root fs) (butlast (resolve (cwd fs) s)) = Some (Dir m)"
  shows "open_w_close fs s =
    (None, fs\<lparr>root := put (resolve (cwd fs) s) (Some (File [])) (root fs)\<rparr>)"
  using assms by (simp add: open_w_close_def)

lemma plain_warc_gz:
  assumes "CHR ''/'' \<notin> set wp"
  shows "plain_name (wp @ ''-'' @ sha1_hexdigest n @ ''-'' @ strftime_Ymd_HMS t @ ''.warc.gz'')"
proof -
  let ?f = "wp @ ''-'' @ sha1_hexdigest n @ ''-'' @ strftime_Ymd_HMS t @ ''.warc.gz''"
  have "2 < length ?f" by (simp add: length_sha1_hexdigest)
  then have "?f \<noteq> [] \<and> ?f \<noteq> ''.'' \<and> ?f \<noteq> ''..''" by auto
  moreover have "CHR ''/'' \<notin> set ?f"
    using assms by (simp add: slash_notin_sha1_hexdigest slash_notin_strftime)
  ultimately show ?thesis unfolding plain_name_def by blast
qed

subsection \<open>\<open>PrepareDirectories.process\<close>\<close>

lemma PrepareDirectories_process_unfold2:
  "PrepareDirectories_process wp now (it, fs) =
     (case rmtree_if_isdir fs (dirname_of it) of
        (Some e, fs1) \<Rightarrow> (Raised e, logged_item it, fs1)
      | (None, fs1) \<Rightarrow>
         (case makedirs fs1 (dirname_of it) of
            (Some e, fs2) \<Rightarrow> (Raised e, logged_item it, fs2)
          | (None, fs2) \<Rightarrow>
             (case open_w_close fs2 (placeholder_of wp now it) of
                (Some e, fs3) \<Rightarrow> (Raised e, prepared_item wp now it, fs3)
              | (None, fs3) \<Rightarrow> (Done, prepared_item wp now it, fs3))))"
  unfolding rmtree_if_isdir_def dirname_of_def placeholder_of_def warc_gz_of_def
    warc_file_base_of_def prepared_item_def logged_item_def
  by (simp add: PrepareDirectories_process_unfold Let_def split: if_splits prod.splits option.splits)

lemma isdir_iff:
  "s \<noteq> [] \<Longrightarrow> isdir fs s \<longleftrightarrow> (\<exists>m. lookup (root fs) (resolve (cwd fs) s) = Some (Dir m))"
  by (auto simp: isdir_def node_at_def split: option.splits node.splits)

lemma dirname_of_eq: "dirname_of it = data_dir it @ ''/'' @ sha1_hexdigest (item_name it)"
  by (simp add: dirname_of_def)

lemma dirname_of_ne: "dirname_of it \<noteq> []"
  by (simp add: dirname_of_def)

lemma resolve_dirname:
  "resolve wd (dirname_of it) = base_path wd (data_dir it) @ [sha1_hexdigest (item_name it)]"
  unfolding dirname_of_eq by (rule resolve_join [OF plain_sha1_hexdigest])

lemma plain_warc_gz_of:
  "CHR ''/'' \<notin> set wp \<Longrightarrow> plain_name (warc_gz_of wp now it)"
  using plain_warc_gz [of wp "item_name it" now]
  by (simp add: warc_gz_of_def warc_file_base_of_def)

lemma placeholder_of_ne: "placeholder_of wp now it \<noteq> []"
  by (simp add: placeholder_of_def)

lemma resolve_placeholder_of:
  assumes "CHR ''/'' \<notin> set wp"
  shows "resolve wd (placeholder_of wp now it)
    = base_path wd (data_dir it) @ [sha1_hexdigest (item_name it), warc_gz_of wp now it]"
proof -
  have "resolve wd (dirname_of it @ ''/'' @ warc_gz_of wp now it)
      = resolve wd (dirname_of it) @ [warc_gz_of wp now it]"
    by (rule resolve_child [OF dirname_of_ne plain_warc_gz_of [OF assms]])
  then show ?thesis by (simp add: placeholder_of_def resolve_dirname)
qed

lemma prepare_DoneE:
  assumes "PrepareDirectories_process wp now (it, fs) = (Done, it', fs')"
  obtains fs1 fs2 where
    "rmtree_if_isdir fs (dirname_of it) = (None, fs1)"
    and "makedirs fs1 (dirname_of it) = (None, fs2)"
    and "open_w_close fs2 (placeholder_of wp now it) = (None, fs')"
    and "it' = prepared_item wp now it"
proof -
  obtain e1 fs1 where r1: "rmtree_if_isdir fs (dirname_of it) = (e1, fs1)"
    by (cases "rmtree_if_isdir fs (dirname_of it)")
  obtain e2 fs2 where mk: "makedirs fs1 (dirname_of it) = (e2, fs2)"
    by (cases "makedirs fs1 (dirname_of it)")
  obtain e3 fs3 where o: "open_w_close fs2 (placeholder_of wp now it) = (e3, fs3)"
    by (cases "open_w_close fs2 (placeholder_of wp now it)")
  from assms have "e1 = None \<and> e2 = None \<and> e3 = None \<and> fs' = fs3
      \<and> it' = prepared_item wp now it"
    by (simp add: PrepareDirectories_process_unfold2 r1 mk o split: option.splits)
  then show ?thesis using that [of fs1 fs2] r1 mk o by simp
qed

lemma prepare_DoneI:
  assumes "rmtree_if_isdir fs (dirname_of it) = (None, fs1)"
    and "makedirs fs1 (dirname_of it) = (None, fs2)"
    and "open_w_close fs2 (placeholder_of wp now it) = (None, fs3)"
  shows "PrepareDirectories_process wp now (it, fs) = (Done, prepared_item wp now it, fs3)"
  by (simp add: PrepareDirectories_process_unfold2 assms)

lemma rmtree_if_isdir_None:
  assumes "rmtree_if_isdir fs s = (None, fs')"
  shows "cwd fs' = cwd fs"
  using assms rmtree_None [of fs s fs']
  by (auto simp: rmtree_if_isdir_def split: if_splits)

lemma prepare_Done_cwd:
  assumes "PrepareDirectories_process wp now (it, fs) = (Done, it', fs')"
  shows "cwd fs' = cwd fs"
proof -
  from assms obtain fs1 fs2 where r: "rmtree_if_isdir fs (dirname_of it) = (None, fs1)"
    and mk: "makedirs fs1 (dirname_of it) = (None, fs2)"
    and o: "open_w_close fs2 (placeholder_of wp now it) = (None, fs')"
    by (rule prepare_DoneE)
  from rmtree_if_isdir_None [OF r] makedirs_None [OF mk] open_w_close_None [OF o]
  show ?thesis by auto
qed

lemma prepare_Done_placeholder:
  assumes "PrepareDirectories_process wp now (it, fs) = (Done, it', fs')"
  shows "node_at fs' (placeholder_of wp now it) = Some (File [])"
proof -
  let ?s = "placeholder_of wp now it"
  from assms obtain fs2 where o: "open_w_close fs2 ?s = (None, fs')"
    by (rule prepare_DoneE)
  let ?p = "resolve (cwd fs2) ?s"
  from open_w_close_None [OF o] obtain m where p: "?p \<noteq> []"
    and m: "lookup (root fs2) (butlast ?p) = Some (Dir m)"
    and fs': "fs' = fs2\<lparr>root := put ?p (Some (File [])) (root fs2)\<rparr>" by blast
  from p have e: "butlast ?p @ [last ?p] = ?p" by simp
  have "lookup (put (butlast ?p @ [last ?p]) (Some (File [])) (root fs2)) (butlast ?p @ [last ?p])
      = Some (File [])"
    by (rule lookup_put_same [OF m])
  then have "lookup (root fs') (resolve (cwd fs') ?s) = Some (File [])"
    unfolding e using fs' by simp
  then show ?thesis by (simp add: node_at_def placeholder_of_ne)
qed

lemma prepare_Done_staging:
  assumes "PrepareDirectories_process wp now (it, fs) = (Done, it', fs')"
    and wp: "CHR ''/'' \<notin> set wp"
  shows "node_at fs' (dirname_of it)
    = Some (Dir (fmupd (warc_gz_of wp now it) (File []) fmempty))"
proof -
  let ?h = "sha1_hexdigest (item_name it)"
  let ?f = "warc_gz_of wp now it"
  from assms(1) obtain fs1 fs2 where
    mk: "makedirs fs1 (dirname_of it) = (None, fs2)"
    and o: "open_w_close fs2 (placeholder_of wp now it) = (None, fs')"
    by (rule prepare_DoneE)
  let ?S = "base_path (cwd fs2) (data_dir it) @ [?h]"
  from makedirs_None [OF mk] have c: "cwd fs2 = cwd fs1"
    and S: "lookup (root fs2) (resolve (cwd fs1) (dirname_of it)) = Some (Dir fmempty)"
    by simp_all
  from S c have S2: "lookup (root fs2) ?S = Some (Dir fmempty)"
    by (simp add: resolve_dirname)
  have rP: "resolve (cwd fs2) (placeholder_of wp now it) = ?S @ [?f]"
    by (simp add: resolve_placeholder_of [OF wp])
  from open_w_close_None [OF o] rP
  have fs': "fs' = fs2\<lparr>root := put (?S @ [?f]) (Some (File [])) (root fs2)\<rparr>" by simp
  have "lookup (put (?S @ [?f]) (Some (File [])) (root fs2)) ?S
      = Some (Dir (fmupd ?f (File []) fmempty))"
    using lookup_put_child [OF S2, of ?f "Some (File [])"] by simp
  then have "lookup (root fs') (resolve (cwd fs') (dirname_of it))
      = Some (Dir (fmupd ?f (File []) fmempty))"
    using fs' by (simp add: resolve_dirname)
  then show ?thesis by (simp add: node_at_def dirname_of_ne)
qed

lemma prepare_succeeds:
  assumes b: "lookup (root fs) (base_path (cwd fs) (data_dir it)) = Some (Dir m)"
    and h: "fmlookup m (sha1_hexdigest (item_name it)) = None
      \<or> (\<exists>m'. fmlookup m (sha1_hexdigest (item_name it)) = Some (Dir m'))"
    and wp: "CHR ''/'' \<notin> set wp"
  shows "fst (PrepareDirectories_process wp now (it, fs)) = Done"
proof -
  let ?h = "sha1_hexdigest (item_name it)"
  let ?d = "dirname_of it"
  let ?f = "warc_gz_of wp now it"
  let ?B = "base_path (cwd fs) (data_dir it)"
  let ?S = "?B @ [?h]"
  have rS: "resolve (cwd fs) ?d = ?S" by (rule resolve_dirname)
  have rP: "resolve (cwd fs) (placeholder_of wp now it) = ?S @ [?f]"
    by (simp add: resolve_placeholder_of [OF wp])
  have lS: "lookup (root fs) ?S = fmlookup m ?h"
    using b by (simp add: lookup_append split: option.splits)
  obtain fs1 m1 where
    r1: "rmtree_if_isdir fs ?d = (None, fs1)"
    and c1: "cwd fs1 = cwd fs"
    and S1: "lookup (root fs1) ?S = None"
    and B1: "lookup (root fs1) ?B = Some (Dir m1)"
  proof (cases "fmlookup m ?h")
    case None
    then have "\<not> isdir fs ?d" using lS rS by (simp add: isdir_iff [OF dirname_of_ne])
    then show ?thesis using that [of fs m] None lS b by (simp add: rmtree_if_isdir_def)
  next
    case (Some n)
    with h obtain m' where m': "fmlookup m ?h = Some (Dir m')" by auto
    then have d: "lookup (root fs) (resolve (cwd fs) ?d) = Some (Dir m')" using lS rS by simp
    then have "isdir fs ?d" by (simp add: isdir_iff [OF dirname_of_ne])
    moreover have "rmtree fs ?d = (None, fs\<lparr>root := put ?S None (root fs)\<rparr>)"
      using rmtree_Dir [OF dirname_of_ne _ d] rS by simp
    moreover have "lookup (put ?S None (root fs)) ?S = None"
      by (rule lookup_put_None) simp
    moreover have "lookup (put ?S None (root fs)) ?B = Some (Dir (fmdrop ?h m))"
      using lookup_put_child [OF b, of ?h None] by simp
    ultimately show ?thesis
      using that [of "fs\<lparr>root := put ?S None (root fs)\<rparr>" "fmdrop ?h m"]
      by (simp add: rmtree_if_isdir_def)
  qed
  let ?fs2 = "fs1\<lparr>root := put ?S (Some (Dir fmempty)) (root fs1)\<rparr>"
  have mk: "makedirs fs1 ?d = (None, ?fs2)"
    using makedirs_parent_exists [OF dirname_of_ne, of fs1 it m1] S1 B1 c1 rS by simp
  have S2: "lookup (root ?fs2) ?S = Some (Dir fmempty)"
    using lookup_put_same [OF B1, of ?h "Some (Dir fmempty)"] by simp
  have "lookup (root ?fs2) (?S @ [?f])
      = (case lookup (root ?fs2) ?S of None \<Rightarrow> None | Some n \<Rightarrow> lookup n [?f])"
    by (rule lookup_append)
  then have P2: "lookup (root ?fs2) (?S @ [?f]) = None"
    unfolding S2 by simp
  have rP2: "resolve (cwd ?fs2) (placeholder_of wp now it) = ?S @ [?f]"
    using rP c1 by simp
  have o: "open_w_close ?fs2 (placeholder_of wp now it)
      = (None, ?fs2\<lparr>root := put (resolve (cwd ?fs2) (placeholder_of wp now it))
          (Some (File [])) (root ?fs2)\<rparr>)"
  proof (rule open_w_close_new [OF placeholder_of_ne])
    show "lookup (root ?fs2) (resolve (cwd ?fs2) (placeholder_of wp now it)) = None"
      unfolding rP2 by (rule P2)
    show "lookup (root ?fs2) (butlast (resolve (cwd ?fs2) (placeholder_of wp now it)))
        = Some (Dir fmempty)"
      unfolding rP2 by (simp only: butlast_snoc S2)
  qed
  show ?thesis using prepare_DoneI [OF r1 mk o] by simp
qed

subsection \<open>\<open>MoveFiles.process\<close>\<close>

lemma MoveFiles_process_unfold:
  assumes "item_dir it = Some d" and "warc_file_base it = Some b"
  shows "MoveFiles_process (it, fs) =
    (case rename fs (d @ ''/'' @ b @ ''.warc.gz'') (data_dir it @ ''/'' @ b @ ''.warc.gz'') of
       (Some e, fs1) \<Rightarrow> (Raised e, it, fs1)
     | (None, fs1) \<Rightarrow>
        (case rmtree fs1 d of
           (Some e, fs2) \<Rightarrow> (Raised e, it, fs2)
         | (None, fs2) \<Rightarrow> (Done, it, fs2)))"
  using assms
  by (simp add: MoveFiles_process_def interpolate_staged interpolate_durable
      interpolate_item_dir del: interpolate.simps split: prod.splits option.splits)

lemma MoveFiles_DoneI:
  assumes "item_dir it = Some d" and "warc_file_base it = Some b"
    and "rename fs (d @ ''/'' @ b @ ''.warc.gz'') (data_dir it @ ''/'' @ b @ ''.warc.gz'')
      = (None, fs1)"
    and "rmtree fs1 d = (None, fs2)"
  shows "MoveFiles_process (it, fs) = (Done, it, fs2)"
  using assms by (simp add: MoveFiles_process_unfold)

lemma MoveFiles_item: "fst (snd (MoveFiles_process (it, fs))) = it"
  by (simp add: MoveFiles_process_def split: sum.splits prod.splits option.splits)

lemma rename_file:
  assumes "s \<noteq> []" and "d \<noteq> []"
    and "resolve (cwd fs) s \<noteq> []" and "resolve (cwd fs) d \<noteq> []"
    and "resolve (cwd fs) s \<noteq> resolve (cwd fs) d"
    and "lookup (root fs) (resolve (cwd fs) s) = Some (File c)"
    and "lookup (root fs) (butlast (resolve (cwd fs) d)) = Some (Dir m)"
    and "\<And>m'. lookup (root fs) (resolve (cwd fs) d) \<noteq> Some (Dir m')"
  shows "rename fs s d = (None, fs\<lparr>root :=
    put (resolve (cwd fs) d) (Some (File c)) (put (resolve (cwd fs) s) None (root fs))\<rparr>)"
  using assms by (simp add: rename_def rename_at_def split: option.splits node.splits)

lemma warc_gz_of_ne_digest: "warc_gz_of wp now it \<noteq> sha1_hexdigest (item_name it)"
proof
  assume "warc_gz_of wp now it = sha1_hexdigest (item_name it)"
  then have "length (warc_gz_of wp now it) = length (sha1_hexdigest (item_name it))" by simp
  then show False
    by (simp add: warc_gz_of_def warc_file_base_of_def length_sha1_hexdigest)
qed

lemma resolve_durable:
  assumes "CHR ''/'' \<notin> set wp"
  shows "resolve wd (data_dir it @ ''/'' @ warc_gz_of wp now it)
    = base_path wd (data_dir it) @ [warc_gz_of wp now it]"
  by (rule resolve_join [OF plain_warc_gz_of [OF assms]])

lemma movefiles_effect:
  assumes d: "item_dir it = Some (dirname_of it)"
    and b: "warc_file_base it = Some (warc_file_base_of wp now it)"
    and wp: "CHR ''/'' \<notin> set wp"
    and src: "node_at fs (placeholder_of wp now it) = Some (File c)"
    and dst: "\<not> isdir fs (data_dir it @ ''/'' @ warc_gz_of wp now it)"
  shows "\<exists>fs'. MoveFiles_process (it, fs) = (Done, it, fs') \<and> cwd fs' = cwd fs
    \<and> lookup (root fs') (base_path (cwd fs) (data_dir it) @ [sha1_hexdigest (item_name it)])
        = None
    \<and> lookup (root fs') (base_path (cwd fs) (data_dir it) @ [warc_gz_of wp now it])
        = Some (File c)
    \<and> (\<forall>q. \<not> prefix q (base_path (cwd fs) (data_dir it)) \<longrightarrow>
         \<not> prefix (base_path (cwd fs) (data_dir it) @ [sha1_hexdigest (item_name it)]) q \<longrightarrow>
         \<not> prefix (base_path (cwd fs) (data_dir it) @ [warc_gz_of wp now it]) q \<longrightarrow>
         lookup (root fs') q = lookup (root fs) q)"
proof -
  let ?h = "sha1_hexdigest (item_name it)"
  let ?f = "warc_gz_of wp now it"
  let ?B = "base_path (cwd fs) (data_dir it)"
  let ?S = "?B @ [?h]"
  let ?Src = "?S @ [?f]"
  let ?T = "?B @ [?f]"
  let ?src = "placeholder_of wp now it"
  let ?dst = "data_dir it @ ''/'' @ ?f"
  have fh: "?f \<noteq> ?h" by (rule warc_gz_of_ne_digest)
  have rSrc: "resolve (cwd fs) ?src = ?Src" by (simp add: resolve_placeholder_of [OF wp])
  have rT: "resolve (cwd fs) ?dst = ?T" by (rule resolve_durable [OF wp])
  have rS: "resolve (cwd fs) (dirname_of it) = ?S" by (rule resolve_dirname)
  from src rSrc have lSrc: "lookup (root fs) ?Src = Some (File c)"
    by (simp add: node_at_def placeholder_of_ne)
  from lookup_parent_Dir [OF lSrc] obtain mS where
    lS: "lookup (root fs) ?S = Some (Dir mS)" by blast
  from lookup_parent_Dir [OF lS] obtain mB where
    lB: "lookup (root fs) ?B = Some (Dir mB)" by blast
  have dne: "?dst \<noteq> []" by simp
  from dst rT isdir_iff [OF dne, of fs] have lT: "lookup (root fs) ?T \<noteq> Some (Dir m')" for m'
    by simp
  let ?r0 = "put ?Src None (root fs)"
  let ?r1 = "put ?T (Some (File c)) ?r0"
  let ?r2 = "put ?S None ?r1"
  let ?fs1 = "fs\<lparr>root := ?r1\<rparr>"
  let ?fs2 = "fs\<lparr>root := ?r2\<rparr>"
  have ren: "rename fs ?src ?dst = (None, ?fs1)"
  proof -
    have "rename fs ?src ?dst = (None, fs\<lparr>root :=
      put (resolve (cwd fs) ?dst) (Some (File c)) (put (resolve (cwd fs) ?src) None (root fs))\<rparr>)"
    proof (rule rename_file [OF placeholder_of_ne dne])
      show "resolve (cwd fs) ?src \<noteq> []" unfolding rSrc by simp
      show "resolve (cwd fs) ?dst \<noteq> []" unfolding rT by simp
      show "resolve (cwd fs) ?src \<noteq> resolve (cwd fs) ?dst" unfolding rSrc rT by simp
      show "lookup (root fs) (resolve (cwd fs) ?src) = Some (File c)"
        unfolding rSrc by (rule lSrc)
      show "lookup (root fs) (butlast (resolve (cwd fs) ?dst)) = Some (Dir mB)"
        unfolding rT by (simp only: butlast_snoc lB)
      show "lookup (root fs) (resolve (cwd fs) ?dst) \<noteq> Some (Dir m')" for m'
        unfolding rT by (rule lT)
    qed
    then show ?thesis unfolding rSrc rT .
  qed
  have r0S: "lookup ?r0 ?S = Some (Dir (fmdrop ?f mS))"
    using lookup_put_child [OF lS, of ?f None] by simp
  have "lookup (put (?B @ [?h, ?f]) None (root fs)) ?B
      = map_option (put [?h, ?f] None) (lookup (root fs) ?B)"
    by (rule lookup_put_prefix) simp
  then obtain mB0 where r0B: "lookup ?r0 ?B = Some (Dir mB0)"
    using lB by (auto split: option.splits)
  have r1T: "lookup ?r1 ?T = Some (File c)"
    by (rule lookup_put_same [OF r0B])
  have r1S: "lookup ?r1 ?S = Some (Dir (fmdrop ?f mS))"
    using lookup_put_other [of ?T ?S "Some (File c)" ?r0] fh r0S by simp
  have rm: "rmtree ?fs1 (dirname_of it) = (None, ?fs2)"
    using rmtree_Dir [OF dirname_of_ne, of ?fs1 it "fmdrop ?f mS"] rS r1S by simp
  have r2S: "lookup ?r2 ?S = None" by (rule lookup_put_None) simp
  have r2T: "lookup ?r2 ?T = Some (File c)"
    using lookup_put_other [of ?S ?T None ?r1] fh r1T by simp
  have frame: "lookup ?r2 q = lookup (root fs) q"
    if "\<not> prefix q ?B" and "\<not> prefix ?S q" and "\<not> prefix ?T q" for q
  proof -
    from that have qS: "\<not> prefix q ?S" and qT: "\<not> prefix q ?T" by auto
    from that(2) have Sq: "\<not> prefix ?Src q"
      using append_prefixD [of ?S "[?f]" q] by blast
    from qS that(2) have qSrc: "\<not> prefix q ?Src"
      using prefix_snoc [of q ?S ?f] by auto
    have "lookup ?r2 q = lookup ?r1 q"
      by (rule lookup_put_other [OF that(2) qS])
    also have "\<dots> = lookup ?r0 q"
      by (rule lookup_put_other [OF that(3) qT])
    also have "\<dots> = lookup (root fs) q"
      by (rule lookup_put_other [OF Sq qSrc])
    finally show ?thesis .
  qed
  have ren': "rename fs (dirname_of it @ ''/'' @ warc_file_base_of wp now it @ ''.warc.gz'')
      (data_dir it @ ''/'' @ warc_file_base_of wp now it @ ''.warc.gz'') = (None, ?fs1)"
    using ren by (simp add: placeholder_of_def warc_gz_of_def)
  have "MoveFiles_process (it, fs) = (Done, it, ?fs2)"
    by (rule MoveFiles_DoneI [OF d b ren' rm])
  then show ?thesis using r2S r2T frame by auto
qed

subsection \<open>The list of URLs\<close>

text \<open>
  C9: for every item name, the empty string and names without a comma included, joining
  the \<open>url_list\<close> that \<open>PrepareDirectories.process\<close> computes with a comma gives the item
  name back, so the split neither trims, removes nor reorders anything; a name with no
  comma gives the list of the name alone. It holds whether or not the stage raises later.
\<close>

theorem url_list_join_roundtrip:
  assumes "PrepareDirectories_process wp now (it, fs) = (r, it', fs')"
  shows "\<exists>us. url_list it' = Some us \<and> join_sep '','' us = item_name it
    \<and> (CHR '','' \<notin> set (item_name it) \<longrightarrow> us = [item_name it])"
proof -
  have "url_list it' = Some (split_sep (CHR '','') (item_name it))"
    using prepare_url_list [of wp now it fs] assms by simp
  then show ?thesis by (simp add: join_split split_sep_no_sep)
qed

theorem url_list_join_roundtrip_witness:
  "(\<exists>us. url_list (fst (snd (PrepareDirectories_process ''ptch'' noon
        (fresh_item ''www.ptch.com/u/1'' ''data'', stale_fs [])))) = Some us
      \<and> join_sep '','' us = ''www.ptch.com/u/1'' \<and> us = [''www.ptch.com/u/1''])
   \<and> (\<exists>us. url_list (fst (snd (PrepareDirectories_process ''ptch'' noon
        (fresh_item [] ''data'', stale_fs [])))) = Some us
      \<and> join_sep '','' us = [] \<and> us = [[]])"
proof -
  have a: "PrepareDirectories_process ''ptch'' noon (fresh_item n ''data'', stale_fs []) =
      (fst (PrepareDirectories_process ''ptch'' noon (fresh_item n ''data'', stale_fs [])),
       fst (snd (PrepareDirectories_process ''ptch'' noon (fresh_item n ''data'', stale_fs []))),
       snd (snd (PrepareDirectories_process ''ptch'' noon (fresh_item n ''data'', stale_fs []))))"
    for n by simp
  show ?thesis
    using url_list_join_roundtrip [OF a [of "''www.ptch.com/u/1''"]]
      url_list_join_roundtrip [OF a [of "[]"]]
    by (simp add: fresh_item_def)
qed

subsection \<open>What \<open>PrepareDirectories.process\<close> assigns and creates\<close>

lemma collapse3: "x = (fst x, fst (snd x), snd (snd x))"
  by simp

lemma strftime_noon: "strftime_Ymd_HMS noon = ''20131227-120000''"
  by (simp add: strftime_Ymd_HMS_def noon_def decimal.simps digit_char_def zero_pad_def)

lemma strftime_later: "strftime_Ymd_HMS later = ''20131227-120007''"
  by (simp add: strftime_Ymd_HMS_def later_def decimal.simps digit_char_def zero_pad_def)

lemma base_path_data: "base_path [] ''data'' = [''data'']"
  by (simp add: base_path_def resolve_def norm_step_def)

lemma example_run_Done:
  "fst (PrepareDirectories_process ''ptch'' now
      (fresh_item n ''data'', stale_fs (sha1_hexdigest n))) = Done"
proof (rule prepare_succeeds)
  show "lookup (root (stale_fs (sha1_hexdigest n)))
      (base_path (cwd (stale_fs (sha1_hexdigest n))) (data_dir (fresh_item n ''data'')))
    = Some (Dir (fmupd (sha1_hexdigest n)
        (Dir (fmupd ''wget.log'' (File ''old'') fmempty)) fmempty))"
    by (simp add: stale_fs_def fresh_item_def base_path_data)
  show "fmlookup (fmupd (sha1_hexdigest n) (Dir (fmupd ''wget.log'' (File ''old'') fmempty)) fmempty)
       (sha1_hexdigest (item_name (fresh_item n ''data''))) = None
    \<or> (\<exists>m'. fmlookup (fmupd (sha1_hexdigest n)
          (Dir (fmupd ''wget.log'' (File ''old'') fmempty)) fmempty)
        (sha1_hexdigest (item_name (fresh_item n ''data''))) = Some (Dir m'))"
    by (simp add: fresh_item_def)
  show "CHR ''/'' \<notin> set ''ptch''" by simp
qed

lemma prepare_Done_fields:
  assumes "PrepareDirectories_process wp now (it, fs) = (Done, it', fs')"
  shows "item_dir it' = Some (data_dir it @ ''/'' @ sha1_hexdigest (item_name it))"
    and "warc_file_base it' =
      Some (wp @ ''-'' @ sha1_hexdigest (item_name it) @ ''-'' @ strftime_Ymd_HMS now)"
    and "assigned it' = assigned it @ [''url_list'', ''item_dir'', ''warc_file_base'']"
    and "item_name it' = item_name it" and "data_dir it' = data_dir it"
proof -
  from assms have "it' = prepared_item wp now it" by (rule prepare_DoneE)
  then show "item_dir it' = Some (data_dir it @ ''/'' @ sha1_hexdigest (item_name it))"
    and "warc_file_base it' =
      Some (wp @ ''-'' @ sha1_hexdigest (item_name it) @ ''-'' @ strftime_Ymd_HMS now)"
    and "assigned it' = assigned it @ [''url_list'', ''item_dir'', ''warc_file_base'']"
    and "item_name it' = item_name it" and "data_dir it' = data_dir it"
    by (simp_all add: prepared_item_def logged_item_def dirname_of_def warc_file_base_of_def)
qed

text \<open>
  C4: for every item, \<open>PrepareDirectories.process\<close> sets \<open>url_list\<close> to the item name
  split at the commas, whatever happens later in the stage, and a run that completes
  has set \<open>item_dir\<close> to \<open>data_dir\<close>, a slash and the SHA-1 hex digest of the item name,
  which is 40 characters long.
\<close>

theorem prepare_url_list_and_item_dir:
  assumes "PrepareDirectories_process wp now (it, fs) = (r, it', fs')"
  shows "url_list it' = Some (split_sep (CHR '','') (item_name it))
    \<and> (r = Done \<longrightarrow>
         item_dir it' = Some (data_dir it @ ''/'' @ sha1_hexdigest (item_name it))
         \<and> length (sha1_hexdigest (item_name it)) = 40)"
proof -
  have "url_list it' = Some (split_sep (CHR '','') (item_name it))"
    using prepare_url_list [of wp now it fs] assms by simp
  moreover have "item_dir it' = Some (data_dir it @ ''/'' @ sha1_hexdigest (item_name it))"
    if "r = Done"
    using prepare_Done_fields(1) [of wp now it fs it' fs'] assms that by simp
  ultimately show ?thesis by (simp add: length_sha1_hexdigest)
qed

theorem prepare_url_list_and_item_dir_witness:
  "fst (PrepareDirectories_process ''ptch'' noon
      (fresh_item ''a.com,b.com'' ''data'', stale_fs (sha1_hexdigest ''a.com,b.com''))) = Done
   \<and> url_list (fst (snd (PrepareDirectories_process ''ptch'' noon
        (fresh_item ''a.com,b.com'' ''data'', stale_fs (sha1_hexdigest ''a.com,b.com'')))))
      = Some [''a.com'', ''b.com'']
   \<and> item_dir (fst (snd (PrepareDirectories_process ''ptch'' noon
        (fresh_item ''a.com,b.com'' ''data'', stale_fs (sha1_hexdigest ''a.com,b.com'')))))
      = Some (''data/'' @ sha1_hexdigest ''a.com,b.com'')"
  using prepare_url_list_and_item_dir [OF collapse3, of "''ptch''" noon
      "fresh_item ''a.com,b.com'' ''data''" "stale_fs (sha1_hexdigest ''a.com,b.com'')"]
    example_run_Done [of noon "''a.com,b.com''"]
  by (simp add: fresh_item_def)

text \<open>
  C5: a run of \<open>PrepareDirectories.process\<close> that completes has set \<open>warc_file_base\<close> to
  the prefix, the SHA-1 hex digest of the item name (the one in the directory name) and
  the clock's reading as \<open>%Y%m%d-%H%M%S\<close>, joined with \<open>-\<close>, and the file
  \<open><item_dir>/<warc_file_base>.warc.gz\<close> exists and is empty.
\<close>

theorem prepare_warc_file_base_and_placeholder:
  assumes "PrepareDirectories_process wp now (it, fs) = (Done, it', fs')"
  shows "\<exists>d b. item_dir it' = Some d \<and> warc_file_base it' = Some b
    \<and> d = data_dir it @ ''/'' @ sha1_hexdigest (item_name it)
    \<and> b = wp @ ''-'' @ sha1_hexdigest (item_name it) @ ''-'' @ strftime_Ymd_HMS now
    \<and> node_at fs' (d @ ''/'' @ b @ ''.warc.gz'') = Some (File [])"
  using prepare_Done_fields(1,2) [OF assms] prepare_Done_placeholder [OF assms]
  by (simp add: placeholder_of_def warc_gz_of_def warc_file_base_of_def dirname_of_def)

theorem prepare_warc_file_base_and_placeholder_witness:
  "warc_file_base (fst (snd (PrepareDirectories_process ''ptch'' noon
      (fresh_item ''a.com,b.com'' ''data'', stale_fs (sha1_hexdigest ''a.com,b.com'')))))
     = Some (''ptch-'' @ sha1_hexdigest ''a.com,b.com'' @ ''-20131227-120000'')
   \<and> node_at (snd (snd (PrepareDirectories_process ''ptch'' noon
        (fresh_item ''a.com,b.com'' ''data'', stale_fs (sha1_hexdigest ''a.com,b.com'')))))
      (''data/'' @ sha1_hexdigest ''a.com,b.com'' @ ''/ptch-'' @ sha1_hexdigest ''a.com,b.com''
         @ ''-20131227-120000.warc.gz'') = Some (File [])"
proof -
  let ?X = "PrepareDirectories_process ''ptch'' noon
      (fresh_item ''a.com,b.com'' ''data'', stale_fs (sha1_hexdigest ''a.com,b.com''))"
  have "?X = (Done, fst (snd ?X), snd (snd ?X))"
    using example_run_Done [of noon "''a.com,b.com''"] collapse3 [of ?X] by simp
  from prepare_warc_file_base_and_placeholder [OF this]
  show ?thesis by (simp add: fresh_item_def strftime_noon)
qed

subsection \<open>Running \<open>PrepareDirectories.process\<close> twice\<close>

lemma prepared_same_strings:
  "dirname_of (prepared_item wp now it) = dirname_of it"
  "warc_gz_of wp' now' (prepared_item wp now it) = warc_gz_of wp' now' it"
  "item_name (prepared_item wp now it) = item_name it"
  "data_dir (prepared_item wp now it) = data_dir it"
  by (simp_all add: prepared_item_def logged_item_def dirname_of_def warc_gz_of_def
      warc_file_base_of_def)

lemma prepare_again:
  assumes run: "PrepareDirectories_process wp t1 (it, fs) = (Done, it1, fs1)"
    and wp: "CHR ''/'' \<notin> set wp"
  shows "\<exists>it2 fs2. PrepareDirectories_process wp t2 (it1, fs1) = (Done, it2, fs2)
    \<and> node_at fs2 (dirname_of it)
        = Some (Dir (fmupd (warc_gz_of wp t2 it) (File []) fmempty))"
proof -
  let ?h = "sha1_hexdigest (item_name it)"
  from run have it1: "it1 = prepared_item wp t1 it" by (rule prepare_DoneE)
  have "node_at fs1 (dirname_of it) = Some (Dir (fmupd (warc_gz_of wp t1 it) (File []) fmempty))"
    by (rule prepare_Done_staging [OF run wp])
  then have "lookup (root fs1) (base_path (cwd fs1) (data_dir it) @ [?h])
      = Some (Dir (fmupd (warc_gz_of wp t1 it) (File []) fmempty))"
    by (simp add: node_at_def dirname_of_ne resolve_dirname)
  from lookup_parent_Dir [OF this] obtain m where
    m: "lookup (root fs1) (base_path (cwd fs1) (data_dir it)) = Some (Dir m)"
    and h: "fmlookup m ?h = Some (Dir (fmupd (warc_gz_of wp t1 it) (File []) fmempty))"
    by blast
  have "fst (PrepareDirectories_process wp t2 (it1, fs1)) = Done"
  proof (rule prepare_succeeds [OF _ _ wp])
    show "lookup (root fs1) (base_path (cwd fs1) (data_dir it1)) = Some (Dir m)"
      using m by (simp add: it1 prepared_same_strings)
    show "fmlookup m (sha1_hexdigest (item_name it1)) = None
        \<or> (\<exists>m'. fmlookup m (sha1_hexdigest (item_name it1)) = Some (Dir m'))"
      using h by (simp add: it1 prepared_same_strings)
  qed
  then obtain it2 fs2 where
    run2: "PrepareDirectories_process wp t2 (it1, fs1) = (Done, it2, fs2)"
    using collapse3 [of "PrepareDirectories_process wp t2 (it1, fs1)"] by metis
  have "node_at fs2 (dirname_of it1)
      = Some (Dir (fmupd (warc_gz_of wp t2 it1) (File []) fmempty))"
    by (rule prepare_Done_staging [OF run2 wp])
  then show ?thesis using run2 by (simp add: it1 prepared_same_strings)
qed

text \<open>
  C1, as stated: after \<open>PrepareDirectories.process\<close> the staging directory is empty. It is
  not: on an item named \<open>a.com,b.com\<close> the stage completes and the staging directory is
  not the empty directory, because the stage itself creates the placeholder in it.
\<close>

theorem prepare_staging_not_empty:
  "fst (PrepareDirectories_process ''ptch'' noon
      (fresh_item ''a.com,b.com'' ''data'', stale_fs (sha1_hexdigest ''a.com,b.com''))) = Done
   \<and> node_at (snd (snd (PrepareDirectories_process ''ptch'' noon
        (fresh_item ''a.com,b.com'' ''data'', stale_fs (sha1_hexdigest ''a.com,b.com'')))))
      (''data/'' @ sha1_hexdigest ''a.com,b.com'') \<noteq> Some (Dir fmempty)"
proof -
  let ?X = "PrepareDirectories_process ''ptch'' noon
      (fresh_item ''a.com,b.com'' ''data'', stale_fs (sha1_hexdigest ''a.com,b.com''))"
  have d: "fst ?X = Done" by (rule example_run_Done)
  then have "?X = (Done, fst (snd ?X), snd (snd ?X))"
    using collapse3 [of ?X] by simp
  from prepare_Done_staging [OF this]
  have "node_at (snd (snd ?X)) (dirname_of (fresh_item ''a.com,b.com'' ''data''))
    = Some (Dir (fmupd (warc_gz_of ''ptch'' noon (fresh_item ''a.com,b.com'' ''data''))
        (File []) fmempty))" by simp
  moreover have "fmupd k v fmempty \<noteq> fmempty" for k :: string and v :: node
    by (metis fmempty_lookup fmupd_lookup option.distinct(1))
  ultimately show ?thesis using d by (simp add: dirname_of_def fresh_item_def)
qed

text \<open>
  C1, amended: when the warc prefix has no slash (as \<open>ptch\<close>) and a run of
  \<open>PrepareDirectories.process\<close> completes, the staging directory \<open>data_dir/<sha1>\<close> holds
  exactly one entry, the empty placeholder of that run; a second run on the item and the
  filesystem that the first left completes too, and the staging directory again holds
  exactly the empty placeholder of the second run. Whatever was in the directory before
  a run, the first run's placeholder included, is gone after it.
\<close>

theorem prepare_twice:
  assumes "CHR ''/'' \<notin> set wp"
    and "PrepareDirectories_process wp t1 (it, fs) = (Done, it1, fs1)"
  shows "node_at fs1 (data_dir it @ ''/'' @ sha1_hexdigest (item_name it))
      = Some (Dir (fmupd (wp @ ''-'' @ sha1_hexdigest (item_name it) @ ''-''
            @ strftime_Ymd_HMS t1 @ ''.warc.gz'') (File []) fmempty))
    \<and> (\<exists>it2 fs2. PrepareDirectories_process wp t2 (it1, fs1) = (Done, it2, fs2)
        \<and> node_at fs2 (data_dir it @ ''/'' @ sha1_hexdigest (item_name it))
          = Some (Dir (fmupd (wp @ ''-'' @ sha1_hexdigest (item_name it) @ ''-''
              @ strftime_Ymd_HMS t2 @ ''.warc.gz'') (File []) fmempty)))"
  using prepare_Done_staging [OF assms(2,1)] prepare_again [OF assms(2,1), of t2]
  by (simp add: dirname_of_def warc_gz_of_def warc_file_base_of_def)

theorem prepare_twice_witness:
  "node_at (stale_fs (sha1_hexdigest ''a.com,b.com'')) (''data/'' @ sha1_hexdigest ''a.com,b.com'')
      = Some (Dir (fmupd ''wget.log'' (File ''old'') fmempty))
   \<and> node_at (snd (snd (PrepareDirectories_process ''ptch'' noon
        (fresh_item ''a.com,b.com'' ''data'', stale_fs (sha1_hexdigest ''a.com,b.com'')))))
      (''data/'' @ sha1_hexdigest ''a.com,b.com'')
      = Some (Dir (fmupd (''ptch-'' @ sha1_hexdigest ''a.com,b.com'' @ ''-20131227-120000.warc.gz'')
          (File []) fmempty))
   \<and> (\<exists>it2 fs2. PrepareDirectories_process ''ptch'' later
        (snd (PrepareDirectories_process ''ptch'' noon
          (fresh_item ''a.com,b.com'' ''data'', stale_fs (sha1_hexdigest ''a.com,b.com''))))
        = (Done, it2, fs2)
      \<and> node_at fs2 (''data/'' @ sha1_hexdigest ''a.com,b.com'')
        = Some (Dir (fmupd (''ptch-'' @ sha1_hexdigest ''a.com,b.com''
            @ ''-20131227-120007.warc.gz'') (File []) fmempty)))"
proof -
  let ?H = "sha1_hexdigest ''a.com,b.com''"
  let ?X = "PrepareDirectories_process ''ptch'' noon (fresh_item ''a.com,b.com'' ''data'', stale_fs ?H)"
  have X: "?X = (Done, fst (snd ?X), snd (snd ?X))"
    using example_run_Done [of noon "''a.com,b.com''"] collapse3 [of ?X] by simp
  have wp: "CHR ''/'' \<notin> set ''ptch''" by simp
  have "resolve [] (''data'' @ ''/'' @ ?H) = [''data'', ?H]"
    using resolve_join [OF plain_sha1_hexdigest, of "[]" "''data''" "''a.com,b.com''"]
    by (simp add: base_path_data)
  then have old: "node_at (stale_fs ?H) (''data/'' @ ?H)
      = Some (Dir (fmupd ''wget.log'' (File ''old'') fmempty))"
    by (simp add: node_at_def stale_fs_def)
  have "snd ?X = (fst (snd ?X), snd (snd ?X))" by simp
  with prepare_twice [OF wp X, of later] old
  show ?thesis by (simp add: fresh_item_def strftime_noon strftime_later)
qed

subsection \<open>The realized command line\<close>

lemma realize_wget_args:
  assumes "item_dir it = Some d" and "warc_file_base it = Some b"
  shows "realize (wget_args W bind) it = Inr
     ([W, ''-U'', USER_AGENT, ''-nv'', ''-o'', d @ ''/wget.log'',
       ''--lua-script'', ''ptch.lua'', ''--no-check-certificate'',
       ''--output-document'', d @ ''/wget.tmp'', ''--truncate-output'',
       ''-e'', ''robots=off'', ''--rotate-dns'', ''--page-requisites'',
       ''--timeout'', ''60'', ''--tries'', ''inf'', ''--waitretry'', ''120'',
       ''--span-hosts'', ''--domains'',
       ''ptch.com,ptchcdn.com,viewptch.ptchcdn.com,site-images.ptchcdn.com,site-nav.ptchcdn.com,assets.ptchcdn.com'',
       ''--warc-file'', d @ ''/'' @ b,
       ''--warc-header'', ''operator: Archive Team'',
       ''--warc-header'', ''ptch-dld-script-version: '' @ VERSION,
       ''--warc-header'', ''wretch-user: '' @ item_name it]
      @ (case bind of None \<Rightarrow> [] | Some a \<Rightarrow> [''--bind-address'', a]))"
  using assms by (simp add: wget_args_def item_get_def split: option.splits)

lemma wget_log_and_tmp_args:
  assumes "item_dir it = Some d" and "warc_file_base it = Some b"
    and "WgetArgFactory_realize W bind it = Inr args"
  shows "args ! 4 = ''-o'' \<and> args ! 5 = d @ ''/wget.log''
    \<and> args ! 9 = ''--output-document'' \<and> args ! 10 = d @ ''/wget.tmp''
    \<and> args ! 25 = ''--warc-file'' \<and> args ! 26 = d @ ''/'' @ b"
proof -
  from assms(3) obtain us where "args = 
     ([W, ''-U'', USER_AGENT, ''-nv'', ''-o'', d @ ''/wget.log'',
       ''--lua-script'', ''ptch.lua'', ''--no-check-certificate'',
       ''--output-document'', d @ ''/wget.tmp'', ''--truncate-output'',
       ''-e'', ''robots=off'', ''--rotate-dns'', ''--page-requisites'',
       ''--timeout'', ''60'', ''--tries'', ''inf'', ''--waitretry'', ''120'',
       ''--span-hosts'', ''--domains'',
       ''ptch.com,ptchcdn.com,viewptch.ptchcdn.com,site-images.ptchcdn.com,site-nav.ptchcdn.com,assets.ptchcdn.com'',
       ''--warc-file'', d @ ''/'' @ b,
       ''--warc-header'', ''operator: Archive Team'',
       ''--warc-header'', ''ptch-dld-script-version: '' @ VERSION,
       ''--warc-header'', ''wretch-user: '' @ item_name it]
      @ (case bind of None \<Rightarrow> [] | Some a \<Rightarrow> [''--bind-address'', a])) @ us"
    unfolding WgetArgFactory_realize_def realize_wget_args [OF assms(1,2)]
    by (auto split: option.splits)
  then show ?thesis by simp
qed

subsection \<open>Relocating the output\<close>

lemma movefiles_after_prepare:
  assumes run: "PrepareDirectories_process wp now (it0, fs0) = (Done, it, fs1)"
    and wp: "CHR ''/'' \<notin> set wp"
    and src: "node_at fs (placeholder_of wp now it0) = Some (File c)"
    and dst: "\<not> isdir fs (data_dir it0 @ ''/'' @ warc_gz_of wp now it0)"
  shows "\<exists>fs'. MoveFiles_process (it, fs) = (Done, it, fs') \<and> cwd fs' = cwd fs
    \<and> lookup (root fs') (base_path (cwd fs) (data_dir it0) @ [sha1_hexdigest (item_name it0)])
        = None
    \<and> lookup (root fs') (base_path (cwd fs) (data_dir it0) @ [warc_gz_of wp now it0])
        = Some (File c)
    \<and> (\<forall>q. \<not> prefix q (base_path (cwd fs) (data_dir it0)) \<longrightarrow>
         \<not> prefix (base_path (cwd fs) (data_dir it0) @ [sha1_hexdigest (item_name it0)]) q \<longrightarrow>
         \<not> prefix (base_path (cwd fs) (data_dir it0) @ [warc_gz_of wp now it0]) q \<longrightarrow>
         lookup (root fs') q = lookup (root fs) q)"
proof -
  from run have it: "it = prepared_item wp now it0" by (rule prepare_DoneE)
  have same: "dirname_of it = dirname_of it0" "warc_file_base_of wp now it = warc_file_base_of wp now it0"
    "warc_gz_of wp now it = warc_gz_of wp now it0" "placeholder_of wp now it = placeholder_of wp now it0"
    "data_dir it = data_dir it0" "item_name it = item_name it0"
    by (simp_all add: it prepared_item_def logged_item_def dirname_of_def warc_gz_of_def
        warc_file_base_of_def placeholder_of_def)
  have d: "item_dir it = Some (dirname_of it)"
    and b: "warc_file_base it = Some (warc_file_base_of wp now it)"
    by (simp_all add: it prepared_item_def logged_item_def dirname_of_def warc_file_base_of_def)
  have src': "node_at fs (placeholder_of wp now it) = Some (File c)"
    using src by (simp add: same)
  have dst': "\<not> isdir fs (data_dir it @ ''/'' @ warc_gz_of wp now it)"
    using dst by (simp add: same)
  show ?thesis using movefiles_effect [OF d b wp src' dst'] by (simp add: same)
qed

text \<open>
  C6: for an item that \<open>PrepareDirectories.process\<close> has prepared (with a warc prefix
  without a slash, as \<open>ptch\<close>), when the output file \<open><warc_file_base>.warc.gz\<close> is in the
  staging directory and no directory of that name is in the way in \<open>data_dir\<close>,
  \<open>MoveFiles.process\<close> completes; afterwards \<open>data_dir\<close> holds the file
  \<open><prefix>-<digest>-<timestamp>.warc.gz\<close> with the bytes it had in the staging directory,
  and the staging directory no longer exists.
\<close>

theorem movefiles_relocates:
  fixes it0 :: item and wp :: string and now :: struct_time
  defines "staging \<equiv> data_dir it0 @ ''/'' @ sha1_hexdigest (item_name it0)"
    and "warc_gz \<equiv> wp @ ''-'' @ sha1_hexdigest (item_name it0) @ ''-''
      @ strftime_Ymd_HMS now @ ''.warc.gz''"
  assumes "PrepareDirectories_process wp now (it0, fs0) = (Done, it, fs1)"
    and "CHR ''/'' \<notin> set wp"
    and "node_at fs (staging @ ''/'' @ warc_gz) = Some (File c)"
    and "\<not> isdir fs (data_dir it0 @ ''/'' @ warc_gz)"
  shows "\<exists>fs'. MoveFiles_process (it, fs) = (Done, it, fs')
    \<and> node_at fs' (data_dir it0 @ ''/'' @ warc_gz) = Some (File c)
    \<and> node_at fs' staging = None"
proof -
  have s: "staging = dirname_of it0" and w: "warc_gz = warc_gz_of wp now it0"
    by (simp_all add: staging_def warc_gz_def dirname_of_def warc_gz_of_def warc_file_base_of_def)
  have src: "node_at fs (placeholder_of wp now it0) = Some (File c)"
    using assms(5) by (simp add: placeholder_of_def s w)
  have dst: "\<not> isdir fs (data_dir it0 @ ''/'' @ warc_gz_of wp now it0)"
    using assms(6) by (simp add: w)
  from movefiles_after_prepare [OF assms(3,4) src dst] obtain fs' where
    run: "MoveFiles_process (it, fs) = (Done, it, fs')" and c: "cwd fs' = cwd fs"
    and S: "lookup (root fs') (base_path (cwd fs) (data_dir it0) @ [sha1_hexdigest (item_name it0)])
        = None"
    and T: "lookup (root fs') (base_path (cwd fs) (data_dir it0) @ [warc_gz_of wp now it0])
        = Some (File c)"
    by blast
  have "node_at fs' (data_dir it0 @ ''/'' @ warc_gz_of wp now it0) = Some (File c)"
    using T c resolve_durable [OF assms(4), of "cwd fs" it0 now] by (simp add: node_at_def)
  moreover have "node_at fs' (dirname_of it0) = None"
    using S c by (simp add: node_at_def resolve_dirname)
  ultimately show ?thesis using run by (auto simp: s w)
qed

lemma example_prepared:
  "PrepareDirectories_process ''ptch'' now (fresh_item n ''data'', stale_fs (sha1_hexdigest n))
    = (Done,
       fst (snd (PrepareDirectories_process ''ptch'' now
         (fresh_item n ''data'', stale_fs (sha1_hexdigest n)))),
       snd (snd (PrepareDirectories_process ''ptch'' now
         (fresh_item n ''data'', stale_fs (sha1_hexdigest n)))))"
  using example_run_Done [of now n]
    collapse3 [of "PrepareDirectories_process ''ptch'' now
      (fresh_item n ''data'', stale_fs (sha1_hexdigest n))"]
  by simp

lemma example_warc_gz:
  "warc_gz_of ''ptch'' noon (fresh_item n ''data'')
    = ''ptch-'' @ sha1_hexdigest n @ ''-20131227-120000.warc.gz''"
  by (simp add: warc_gz_of_def warc_file_base_of_def fresh_item_def strftime_noon)

lemma resolve_example_staged:
  "resolve [] (''data/'' @ sha1_hexdigest n @ ''/'' @ x) =
     (if plain_name x then [''data'', sha1_hexdigest n, x]
      else resolve [] (''data/'' @ sha1_hexdigest n @ ''/'' @ x))"
  using resolve_child [of "''data/'' @ sha1_hexdigest n" x "[]"]
    resolve_join [OF plain_sha1_hexdigest, of "[]" "''data''" n]
  by (simp add: base_path_data)

lemma resolve_example_durable:
  "plain_name x \<Longrightarrow> resolve [] (''data/'' @ x) = [''data'', x]"
  using resolve_join [of x "[]" "''data''"] by (simp add: base_path_data)

lemma fetched_fs_facts:
  assumes "f = warc_gz_of ''ptch'' noon (fresh_item n ''data'')"
  shows "node_at (fetched_fs (sha1_hexdigest n) f) (''data/'' @ sha1_hexdigest n @ ''/'' @ f)
      = Some (File ''WARC/1.0'')"
    and "\<not> isdir (fetched_fs (sha1_hexdigest n) f) (''data/'' @ f)"
proof -
  have p: "plain_name f" unfolding assms by (rule plain_warc_gz_of) simp
  have ne: "f \<noteq> sha1_hexdigest n"
    using warc_gz_of_ne_digest [of "''ptch''" noon "fresh_item n ''data''"] assms
    by (simp add: fresh_item_def)
  show "node_at (fetched_fs (sha1_hexdigest n) f) (''data/'' @ sha1_hexdigest n @ ''/'' @ f)
      = Some (File ''WARC/1.0'')"
    using p resolve_example_staged [of n f] by (simp add: node_at_def fetched_fs_def)
  show "\<not> isdir (fetched_fs (sha1_hexdigest n) f) (''data/'' @ f)"
    using p ne resolve_example_durable [of f] by (simp add: isdir_def node_at_def fetched_fs_def)
qed

theorem movefiles_relocates_witness:
  "\<exists>fs'. MoveFiles_process
      (fst (snd (PrepareDirectories_process ''ptch'' noon
         (fresh_item ''a.com,b.com'' ''data'', stale_fs (sha1_hexdigest ''a.com,b.com'')))),
       fetched_fs (sha1_hexdigest ''a.com,b.com'')
         (''ptch-'' @ sha1_hexdigest ''a.com,b.com'' @ ''-20131227-120000.warc.gz''))
     = (Done,
        fst (snd (PrepareDirectories_process ''ptch'' noon
         (fresh_item ''a.com,b.com'' ''data'', stale_fs (sha1_hexdigest ''a.com,b.com'')))),
        fs')
   \<and> node_at fs' (''data/ptch-'' @ sha1_hexdigest ''a.com,b.com'' @ ''-20131227-120000.warc.gz'')
       = Some (File ''WARC/1.0'')
   \<and> node_at fs' (''data/'' @ sha1_hexdigest ''a.com,b.com'') = None"
proof -
  let ?n = "''a.com,b.com''"
  let ?f = "''ptch-'' @ sha1_hexdigest ?n @ ''-20131227-120000.warc.gz''"
  have f: "?f = warc_gz_of ''ptch'' noon (fresh_item ?n ''data'')"
    by (simp add: example_warc_gz)
  have wp: "CHR ''/'' \<notin> set ''ptch''" by simp
  have src: "node_at (fetched_fs (sha1_hexdigest ?n) ?f)
      ((data_dir (fresh_item ?n ''data'') @ ''/'' @ sha1_hexdigest (item_name (fresh_item ?n ''data'')))
        @ ''/'' @ ''ptch'' @ ''-'' @ sha1_hexdigest (item_name (fresh_item ?n ''data'')) @ ''-''
        @ strftime_Ymd_HMS noon @ ''.warc.gz'') = Some (File ''WARC/1.0'')"
    using fetched_fs_facts(1) [OF f] by (simp add: fresh_item_def strftime_noon)
  have dst: "\<not> isdir (fetched_fs (sha1_hexdigest ?n) ?f)
      (data_dir (fresh_item ?n ''data'') @ ''/'' @ ''ptch'' @ ''-''
        @ sha1_hexdigest (item_name (fresh_item ?n ''data'')) @ ''-''
        @ strftime_Ymd_HMS noon @ ''.warc.gz'')"
    using fetched_fs_facts(2) [OF f] by (simp add: fresh_item_def strftime_noon)
  from movefiles_relocates [OF example_prepared wp src dst]
  show ?thesis by (simp add: fresh_item_def strftime_noon)
qed

subsection \<open>What \<open>MoveFiles.process\<close> leaves behind\<close>

lemma plain_wget_log: "plain_name ''wget.log''" and plain_wget_tmp: "plain_name ''wget.tmp''"
  by (simp_all add: plain_name_def)

text \<open>
  C10: in the situation of C6, \<open>MoveFiles.process\<close> moves the one file
  \<open><warc_file_base>.warc.gz\<close> and nothing else. The log file and the temporary document
  that the command line names for the downloader (\<open>-o\<close> and \<open>--output-document\<close>, both
  in the staging directory), and every other entry of the staging directory, no longer
  exist afterwards; and every path of the filesystem that is not the data directory or
  above it, not the staging directory or below it, and not the moved file, is as
  before, so the data directory gains the output file and nothing else.
\<close>

theorem movefiles_leaves_the_rest:
  fixes it0 :: item and wp :: string and now :: struct_time and fs :: filesystem
  defines "staging \<equiv> data_dir it0 @ ''/'' @ sha1_hexdigest (item_name it0)"
    and "warc_gz \<equiv> wp @ ''-'' @ sha1_hexdigest (item_name it0) @ ''-''
      @ strftime_Ymd_HMS now @ ''.warc.gz''"
    and "durable \<equiv> base_path (cwd fs) (data_dir it0)"
  assumes "PrepareDirectories_process wp now (it0, fs0) = (Done, it, fs1)"
    and "CHR ''/'' \<notin> set wp"
    and "node_at fs (staging @ ''/'' @ warc_gz) = Some (File c)"
    and "\<not> isdir fs (data_dir it0 @ ''/'' @ warc_gz)"
    and "WgetArgFactory_realize WGET_LUA bind_address it = Inr args"
  shows "\<exists>fs'. MoveFiles_process (it, fs) = (Done, it, fs')
    \<and> args ! 4 = ''-o'' \<and> args ! 5 = staging @ ''/wget.log''
    \<and> args ! 9 = ''--output-document'' \<and> args ! 10 = staging @ ''/wget.tmp''
    \<and> node_at fs' (args ! 5) = None \<and> node_at fs' (args ! 10) = None
    \<and> (\<forall>x. plain_name x \<longrightarrow> node_at fs' (staging @ ''/'' @ x) = None)
    \<and> node_at fs' (data_dir it0 @ ''/'' @ warc_gz) = Some (File c)
    \<and> (\<forall>q. \<not> prefix q durable \<longrightarrow>
          \<not> prefix (durable @ [sha1_hexdigest (item_name it0)]) q \<longrightarrow>
          \<not> prefix (durable @ [warc_gz]) q \<longrightarrow>
          lookup (root fs') q = lookup (root fs) q)"
proof -
  have s: "staging = dirname_of it0" and w: "warc_gz = warc_gz_of wp now it0"
    by (simp_all add: staging_def warc_gz_def dirname_of_def warc_gz_of_def warc_file_base_of_def)
  have src: "node_at fs (placeholder_of wp now it0) = Some (File c)"
    using assms(6) by (simp add: placeholder_of_def s w)
  have dst: "\<not> isdir fs (data_dir it0 @ ''/'' @ warc_gz_of wp now it0)"
    using assms(7) by (simp add: w)
  from movefiles_after_prepare [OF assms(4,5) src dst] obtain fs' where
    run: "MoveFiles_process (it, fs) = (Done, it, fs')" and c: "cwd fs' = cwd fs"
    and S: "lookup (root fs') (durable @ [sha1_hexdigest (item_name it0)]) = None"
    and T: "lookup (root fs') (durable @ [warc_gz_of wp now it0]) = Some (File c)"
    and frame: "\<forall>q. \<not> prefix q durable \<longrightarrow>
         \<not> prefix (durable @ [sha1_hexdigest (item_name it0)]) q \<longrightarrow>
         \<not> prefix (durable @ [warc_gz_of wp now it0]) q \<longrightarrow>
         lookup (root fs') q = lookup (root fs) q"
    unfolding durable_def by blast
  have below: "node_at fs' (dirname_of it0 @ ''/'' @ x) = None" if "plain_name x" for x
  proof -
    have "resolve (cwd fs') (dirname_of it0 @ ''/'' @ x)
        = (durable @ [sha1_hexdigest (item_name it0)]) @ [x]"
      using resolve_child [OF dirname_of_ne that, of "cwd fs'" it0]
      by (simp add: resolve_dirname c durable_def)
    moreover have "lookup (root fs') ((durable @ [sha1_hexdigest (item_name it0)]) @ [x]) = None"
      by (rule lookup_None_append [OF S])
    ultimately show ?thesis by (simp add: node_at_def)
  qed
  from assms(4) have it: "it = prepared_item wp now it0" by (rule prepare_DoneE)
  have "item_dir it = Some (dirname_of it0)"
    and "warc_file_base it = Some (warc_file_base_of wp now it0)"
    by (simp_all add: it prepared_item_def)
  from wget_log_and_tmp_args [OF this assms(8)]
  have args: "args ! 4 = ''-o''" "args ! 5 = dirname_of it0 @ ''/wget.log''"
    "args ! 9 = ''--output-document''" "args ! 10 = dirname_of it0 @ ''/wget.tmp''"
    by simp_all
  have gone: "node_at fs' (args ! 5) = None" "node_at fs' (args ! 10) = None"
    using below [OF plain_wget_log] below [OF plain_wget_tmp] args by simp_all
  have moved: "node_at fs' (data_dir it0 @ ''/'' @ warc_gz_of wp now it0) = Some (File c)"
    using T c resolve_durable [OF assms(5), of "cwd fs" it0 now]
    by (simp add: node_at_def durable_def)
  show ?thesis
    unfolding s w using run args gone below moved frame by blast
qed

lemma example_realize:
  "\<exists>args. WgetArgFactory_realize W bind
      (fst (snd (PrepareDirectories_process ''ptch'' now
         (fresh_item n ''data'', stale_fs (sha1_hexdigest n))))) = Inr args"
proof -
  let ?it = "fst (snd (PrepareDirectories_process ''ptch'' now
         (fresh_item n ''data'', stale_fs (sha1_hexdigest n))))"
  from example_prepared [of now n] have it: "?it = prepared_item ''ptch'' now (fresh_item n ''data'')"
    by (rule prepare_DoneE)
  have "item_dir ?it = Some (dirname_of (fresh_item n ''data''))"
    and "warc_file_base ?it = Some (warc_file_base_of ''ptch'' now (fresh_item n ''data''))"
    and "url_list ?it = Some (split_sep (CHR '','') n)"
    unfolding it by (simp_all add: prepared_item_def logged_item_def fresh_item_def)
  then show ?thesis
    by (simp add: WgetArgFactory_realize_def realize_wget_args)
qed

theorem movefiles_leaves_the_rest_witness:
  "\<exists>args fs'.
     WgetArgFactory_realize ''./wget-lua'' None
       (fst (snd (PrepareDirectories_process ''ptch'' noon
         (fresh_item ''a.com,b.com'' ''data'', stale_fs (sha1_hexdigest ''a.com,b.com'')))))
       = Inr args
   \<and> MoveFiles_process
      (fst (snd (PrepareDirectories_process ''ptch'' noon
         (fresh_item ''a.com,b.com'' ''data'', stale_fs (sha1_hexdigest ''a.com,b.com'')))),
       fetched_fs (sha1_hexdigest ''a.com,b.com'')
         (''ptch-'' @ sha1_hexdigest ''a.com,b.com'' @ ''-20131227-120000.warc.gz''))
     = (Done,
        fst (snd (PrepareDirectories_process ''ptch'' noon
         (fresh_item ''a.com,b.com'' ''data'', stale_fs (sha1_hexdigest ''a.com,b.com'')))),
        fs')
   \<and> args ! 5 = ''data/'' @ sha1_hexdigest ''a.com,b.com'' @ ''/wget.log''
   \<and> args ! 10 = ''data/'' @ sha1_hexdigest ''a.com,b.com'' @ ''/wget.tmp''
   \<and> node_at (fetched_fs (sha1_hexdigest ''a.com,b.com'')
         (''ptch-'' @ sha1_hexdigest ''a.com,b.com'' @ ''-20131227-120000.warc.gz''))
        (''data/'' @ sha1_hexdigest ''a.com,b.com'' @ ''/wget.log'') = Some (File ''log'')
   \<and> node_at fs' (args ! 5) = None \<and> node_at fs' (args ! 10) = None
   \<and> node_at fs' (''data/ptch-'' @ sha1_hexdigest ''a.com,b.com'' @ ''-20131227-120000.warc.gz'')
       = Some (File ''WARC/1.0'')
   \<and> lookup (root fs') [''data'', ''wget.log''] = None"
proof -
  let ?n = "''a.com,b.com''"
  let ?H = "sha1_hexdigest ?n"
  let ?f = "''ptch-'' @ ?H @ ''-20131227-120000.warc.gz''"
  let ?it = "fst (snd (PrepareDirectories_process ''ptch'' noon (fresh_item ?n ''data'', stale_fs ?H)))"
  have f: "?f = warc_gz_of ''ptch'' noon (fresh_item ?n ''data'')"
    by (simp add: example_warc_gz)
  have wp: "CHR ''/'' \<notin> set ''ptch''" by simp
  have src: "node_at (fetched_fs ?H ?f)
      ((data_dir (fresh_item ?n ''data'') @ ''/'' @ sha1_hexdigest (item_name (fresh_item ?n ''data'')))
        @ ''/'' @ ''ptch'' @ ''-'' @ sha1_hexdigest (item_name (fresh_item ?n ''data'')) @ ''-''
        @ strftime_Ymd_HMS noon @ ''.warc.gz'') = Some (File ''WARC/1.0'')"
    using fetched_fs_facts(1) [OF f] by (simp add: fresh_item_def strftime_noon)
  have dst: "\<not> isdir (fetched_fs ?H ?f)
      (data_dir (fresh_item ?n ''data'') @ ''/'' @ ''ptch'' @ ''-''
        @ sha1_hexdigest (item_name (fresh_item ?n ''data'')) @ ''-''
        @ strftime_Ymd_HMS noon @ ''.warc.gz'')"
    using fetched_fs_facts(2) [OF f] by (simp add: fresh_item_def strftime_noon)
  obtain args where args: "WgetArgFactory_realize ''./wget-lua'' None ?it = Inr args"
    using example_realize [of "''./wget-lua''" None noon ?n] by blast
  have fne: "?f \<noteq> ''wget.log''" by simp
  have old: "node_at (fetched_fs ?H ?f) (''data/'' @ ?H @ ''/wget.log'') = Some (File ''log'')"
    using resolve_example_staged [of ?n "''wget.log''"] plain_wget_log
    by (simp add: node_at_def fetched_fs_def)
  have q: "\<not> prefix [''data'', ''wget.log''] [''data'']"
    "\<not> prefix ([''data''] @ [?H]) [''data'', ''wget.log'']"
    "\<not> prefix ([''data''] @ [?f]) [''data'', ''wget.log'']"
    using length_sha1_hexdigest [of ?n] by auto
  have before: "lookup (root (fetched_fs ?H ?f)) [''data'', ''wget.log''] = None"
    using length_sha1_hexdigest [of ?n] by (auto simp: fetched_fs_def)
  from movefiles_leaves_the_rest [OF example_prepared wp src dst args]
  obtain fs' where "MoveFiles_process (?it, fetched_fs ?H ?f) = (Done, ?it, fs')"
    and "args ! 5 = ''data/'' @ ?H @ ''/wget.log''"
    and "args ! 10 = ''data/'' @ ?H @ ''/wget.tmp''"
    and "node_at fs' (args ! 5) = None" and "node_at fs' (args ! 10) = None"
    and "node_at fs' (''data/'' @ ?f) = Some (File ''WARC/1.0'')"
    and "\<forall>q. \<not> prefix q (base_path (cwd (fetched_fs ?H ?f)) ''data'') \<longrightarrow>
          \<not> prefix (base_path (cwd (fetched_fs ?H ?f)) ''data'' @ [?H]) q \<longrightarrow>
          \<not> prefix (base_path (cwd (fetched_fs ?H ?f)) ''data'' @ [?f]) q \<longrightarrow>
          lookup (root fs') q = lookup (root (fetched_fs ?H ?f)) q"
    by (auto simp: fresh_item_def strftime_noon)
  moreover from this(7) q before have "lookup (root fs') [''data'', ''wget.log''] = None"
    by (simp add: fetched_fs_def base_path_data)
  ultimately show ?thesis using args old by auto
qed

subsection \<open>The assignments of \<open>item_dir\<close> and \<open>warc_file_base\<close>\<close>

lemma mkdir_at_error: "mkdir_at r p = Inl e \<Longrightarrow> \<exists>x. e = OSError x"
  by (auto simp: mkdir_at_def split: option.splits node.splits)

lemma makedirs_at_error: "makedirs_at r p = Inl e \<Longrightarrow> \<exists>x. e = OSError x"
proof (induction r p arbitrary: e rule: makedirs_at.induct)
  case (1 r p)
  show ?case
  proof (cases "p \<noteq> [] \<and> butlast p \<noteq> [] \<and> lookup r (butlast p) = None")
    case True
    show ?thesis
    proof (cases "makedirs_at r (butlast p)")
      case (Inl e')
      with "1.IH" [OF True] obtain x where x: "e' = OSError x" by blast
      show ?thesis
      proof (cases "e' = OSError EEXIST")
        case True
        with \<open>p \<noteq> [] \<and> butlast p \<noteq> [] \<and> lookup r (butlast p) = None\<close> Inl "1.prems"
        have "mkdir_at r p = Inl e" by (subst (asm) makedirs_at.simps) simp
        then show ?thesis by (rule mkdir_at_error)
      next
        case False
        with \<open>p \<noteq> [] \<and> butlast p \<noteq> [] \<and> lookup r (butlast p) = None\<close> Inl "1.prems"
        have "e = e'" by (subst (asm) makedirs_at.simps) simp
        then show ?thesis using x by simp
      qed
    next
      case (Inr r')
      with True "1.prems" have "mkdir_at r' p = Inl e"
        by (subst (asm) makedirs_at.simps) simp
      then show ?thesis by (rule mkdir_at_error)
    qed
  next
    case False
    with "1.prems" have "mkdir_at r p = Inl e"
      by (subst (asm) makedirs_at.simps) auto
    then show ?thesis by (rule mkdir_at_error)
  qed
qed

lemma makedirs_error: "makedirs fs s = (Some e, fs') \<Longrightarrow> \<exists>x. e = OSError x"
  by (auto simp: makedirs_def dest: makedirs_at_error split: if_splits sum.splits)

lemma rmtree_if_isdir_error: "rmtree_if_isdir fs s = (Some e, fs') \<Longrightarrow> \<exists>x. e = OSError x"
  by (auto simp: rmtree_if_isdir_def rmtree_def split: if_splits option.splits node.splits)

lemma open_w_close_error: "open_w_close fs s = (Some e, fs') \<Longrightarrow> \<exists>x. e = IOError x"
  by (auto simp: open_w_close_def split: if_splits option.splits node.splits)

text \<open>
  A run of \<open>PrepareDirectories.process\<close> that raises has either raised an \<open>OSError\<close>, in
  \<open>shutil.rmtree\<close> or \<open>os.makedirs\<close>, and then the item is as it was when the URLs were
  logged, or an \<open>IOError\<close>, in \<open>open\<close>, and then the item has its assignments.
\<close>

lemma prepare_Raised:
  assumes "PrepareDirectories_process wp now (it, fs) = (Raised e, it1, fs1)"
  shows "(\<exists>x. e = OSError x) \<and> it1 = logged_item it
    \<or> (\<exists>x. e = IOError x) \<and> it1 = prepared_item wp now it"
proof -
  obtain e1 fsa where r1: "rmtree_if_isdir fs (dirname_of it) = (e1, fsa)"
    by (cases "rmtree_if_isdir fs (dirname_of it)")
  obtain e2 fsb where mk: "makedirs fsa (dirname_of it) = (e2, fsb)"
    by (cases "makedirs fsa (dirname_of it)")
  obtain e3 fsc where o: "open_w_close fsb (placeholder_of wp now it) = (e3, fsc)"
    by (cases "open_w_close fsb (placeholder_of wp now it)")
  show ?thesis
  proof (cases e1)
    case (Some x)
    with assms r1 have "e = x \<and> it1 = logged_item it"
      by (simp add: PrepareDirectories_process_unfold2)
    then show ?thesis using rmtree_if_isdir_error [of fs "dirname_of it" x fsa] r1 Some by simp
  next
    case None
    note n1 = this
    show ?thesis
    proof (cases e2)
      case (Some x)
      with assms r1 mk n1 have "e = x \<and> it1 = logged_item it"
        by (simp add: PrepareDirectories_process_unfold2)
      then show ?thesis using makedirs_error [of fsa "dirname_of it" x fsb] mk Some by simp
    next
      case None
      note n2 = this
      show ?thesis
      proof (cases e3)
        case (Some x)
        with assms r1 mk o n1 n2 have "e = x \<and> it1 = prepared_item wp now it"
          by (simp add: PrepareDirectories_process_unfold2)
        then show ?thesis
          using open_w_close_error [of fsb "placeholder_of wp now it" x fsc] o Some by simp
      next
        case None
        with assms r1 mk o n1 n2 show ?thesis
          by (simp add: PrepareDirectories_process_unfold2)
      qed
    qed
  qed
qed

text \<open>
  Where a regular file has the name of the staging directory, \<open>os.makedirs\<close> raises, and
  the stage ends there.
\<close>

lemma prepare_blocked:
  assumes "node_at fs (dirname_of it) = Some (File c)"
  shows "PrepareDirectories_process wp now (it, fs)
    = (Raised (OSError EEXIST), logged_item it, fs)"
proof -
  let ?p = "resolve (cwd fs) (dirname_of it)"
  from assms have l: "lookup (root fs) ?p = Some (File c)"
    by (simp add: node_at_def dirname_of_ne)
  then have "\<not> isdir fs (dirname_of it)"
    by (simp add: isdir_iff [OF dirname_of_ne])
  then have r1: "rmtree_if_isdir fs (dirname_of it) = (None, fs)"
    by (simp add: rmtree_if_isdir_def)
  have "?p = base_path (cwd fs) (data_dir it) @ [sha1_hexdigest (item_name it)]"
    by (rule resolve_dirname)
  with l obtain m where "lookup (root fs) (butlast ?p) = Some (Dir m)"
    using lookup_parent_Dir
      [of "root fs" "base_path (cwd fs) (data_dir it)" "sha1_hexdigest (item_name it)" "File c"]
    by auto
  then have "makedirs_at (root fs) ?p = Inl (OSError EEXIST)"
    using l by (subst makedirs_at.simps) (simp add: mkdir_at_def)
  then have mk: "makedirs fs (dirname_of it) = (Some (OSError EEXIST), fs)"
    by (simp add: makedirs_def dirname_of_ne)
  show ?thesis by (simp add: PrepareDirectories_process_unfold2 r1 mk)
qed

lemma warc_gz_of_slash:
  "warc_gz_of (a @ ''/'' @ b) now it = a @ ''/'' @ warc_gz_of b now it"
  by (simp add: warc_gz_of_def warc_file_base_of_def)

text \<open>
  With a \<open>warc_prefix\<close> that names a subdirectory, the staging directory is made, the
  assignments follow, and \<open>open\<close> raises: the subdirectory is not there.
\<close>

lemma prepare_open_fails:
  assumes "fst (PrepareDirectories_process wp0 now0 (it, fs)) = Done"
    and a: "plain_name a" and b: "CHR ''/'' \<notin> set b"
  shows "fst (PrepareDirectories_process (a @ ''/'' @ b) now (it, fs))
    = Raised (IOError ENOENT)"
proof -
  from assms(1) have "PrepareDirectories_process wp0 now0 (it, fs)
      = (Done, fst (snd (PrepareDirectories_process wp0 now0 (it, fs))),
          snd (snd (PrepareDirectories_process wp0 now0 (it, fs))))"
    using collapse3 [of "PrepareDirectories_process wp0 now0 (it, fs)"] by simp
  then obtain fs1 fs2 where r1: "rmtree_if_isdir fs (dirname_of it) = (None, fs1)"
    and mk: "makedirs fs1 (dirname_of it) = (None, fs2)"
    by (rule prepare_DoneE)
  let ?S = "resolve (cwd fs2) (dirname_of it)"
  from makedirs_None [OF mk] have S: "lookup (root fs2) ?S = Some (Dir fmempty)"
    by simp
  let ?P = "placeholder_of (a @ ''/'' @ b) now it"
  have "resolve (cwd fs2) ((dirname_of it @ ''/'' @ a) @ ''/'' @ warc_gz_of b now it)
      = resolve (cwd fs2) (dirname_of it @ ''/'' @ a) @ [warc_gz_of b now it]"
    by (rule resolve_child [OF _ plain_warc_gz_of [OF b]]) simp
  moreover have "resolve (cwd fs2) (dirname_of it @ ''/'' @ a) = ?S @ [a]"
    by (rule resolve_child [OF dirname_of_ne a])
  ultimately have rP: "resolve (cwd fs2) ?P = (?S @ [a]) @ [warc_gz_of b now it]"
    using warc_gz_of_slash [of a b now it] by (simp add: placeholder_of_def)
  have "lookup (root fs2) (?S @ [a])
      = (case lookup (root fs2) ?S of None \<Rightarrow> None | Some n \<Rightarrow> lookup n [a])"
    by (rule lookup_append)
  then have Sa: "lookup (root fs2) (?S @ [a]) = None" unfolding S by simp
  then have SP: "lookup (root fs2) ((?S @ [a]) @ [warc_gz_of b now it]) = None"
    by (rule lookup_None_append)
  have "open_w_close fs2 ?P = (Some (IOError ENOENT), fs2)"
    unfolding open_w_close_def rP using Sa SP
    by (simp only: butlast_snoc placeholder_of_ne if_False option.case)
  then show ?thesis by (simp add: PrepareDirectories_process_unfold2 r1 mk)
qed

lemma example_blocked:
  "PrepareDirectories_process wp now (fresh_item n ''data'', blocked_fs (sha1_hexdigest n))
    = (Raised (OSError EEXIST), logged_item (fresh_item n ''data''),
       blocked_fs (sha1_hexdigest n))"
proof (rule prepare_blocked)
  have rd: "resolve [] (dirname_of (fresh_item n ''data'')) = [''data'', sha1_hexdigest n]"
    using resolve_dirname [of "[]" "fresh_item n ''data''"]
    by (simp add: base_path_data fresh_item_def)
  show "node_at (blocked_fs (sha1_hexdigest n)) (dirname_of (fresh_item n ''data''))
      = Some (File ''x'')"
    using rd by (simp add: node_at_def dirname_of_ne blocked_fs_def)
qed

lemma example_open_fails:
  "fst (PrepareDirectories_process ''a/b'' now
      (fresh_item n ''data'', stale_fs (sha1_hexdigest n))) = Raised (IOError ENOENT)"
proof -
  have "fst (PrepareDirectories_process (''a'' @ ''/'' @ ''b'') now
      (fresh_item n ''data'', stale_fs (sha1_hexdigest n))) = Raised (IOError ENOENT)"
    by (rule prepare_open_fails [OF example_run_Done [of noon n]])
      (simp_all add: plain_name_def)
  then show ?thesis by simp
qed

text \<open>
  The stages of the pipeline that follow \<open>PrepareDirectories\<close> assign nothing.
\<close>

lemma foldl_log_output_lines: "foldl log_output it ls = it\<lparr>log := log it @ ls\<rparr>"
  by (induction ls arbitrary: it) (simp_all add: log_output_def)

lemma run_stage_keeps:
  assumes "\<not> prepares st"
  shows "item_dir (fst (snd (run_stage w now st s))) = item_dir (fst s)
    \<and> warc_file_base (fst (snd (run_stage w now st s))) = warc_file_base (fst s)
    \<and> assigned (fst (snd (run_stage w now st s))) = assigned (fst s)"
  using assms
proof (induction st)
  case (PrepareDirectories wp)
  then show ?case by simp
next
  case MoveFiles
  have "fst (snd (run_stage w now MoveFiles s)) = fst (snd (MoveFiles_process s))"
    by (simp split: prod.splits)
  then show ?case using MoveFiles_item [of "fst s" "snd s"] by simp
next
  case (LimitConcurrent cfg st)
  then show ?case by simp
next
  case (Framework f)
  show ?case by (simp add: foldl_log_output_lines split: prod.splits)
qed

lemma run_stages_keep:
  assumes "\<forall>st \<in> set sts. \<not> prepares st"
  shows "item_dir (fst (snd (run_stages w now sts s))) = item_dir (fst s)
    \<and> warc_file_base (fst (snd (run_stages w now sts s))) = warc_file_base (fst s)
    \<and> assigned (fst (snd (run_stages w now sts s))) = assigned (fst s)"
  using assms
proof (induction sts arbitrary: s)
  case Nil
  show ?case by simp
next
  case (Cons st sts)
  obtain ok s' where r: "run_stage w now st s = (ok, s')"
    by (cases "run_stage w now st s")
  from Cons.prems have "\<not> prepares st" by simp
  from run_stage_keeps [OF this, of w now s] r
  have k: "item_dir (fst s') = item_dir (fst s)
      \<and> warc_file_base (fst s') = warc_file_base (fst s)
      \<and> assigned (fst s') = assigned (fst s)"
    by simp
  show ?case
  proof (cases ok)
    case True
    with r have "run_stages w now (st # sts) s = run_stages w now sts s'" by simp
    moreover from Cons.prems have "\<forall>st \<in> set sts. \<not> prepares st" by simp
    ultimately show ?thesis using Cons.IH [of s'] k by simp
  next
    case False
    with r have "run_stages w now (st # sts) s = (False, s')" by simp
    then show ?thesis using k by simp
  qed
qed

lemma later_stages_of_pipeline: "\<forall>st \<in> set (take n (tl pipeline)). \<not> prepares st"
proof -
  have "\<forall>st \<in> set (tl pipeline). \<not> prepares st" by (simp add: pipeline_def)
  then show ?thesis using set_take_subset [of n "tl pipeline"] by blast
qed

text \<open>
  C8, as stated: \<open>item_dir\<close> and \<open>warc_file_base\<close> are assigned before any stage that
  touches the filesystem runs. They are not: \<open>PrepareDirectories\<close>, the stage that assigns
  them, is itself such a stage, and it goes to the filesystem before it assigns them. On
  the item \<open>a.com,b.com\<close>, handed over with both fields unassigned, it completes, and the
  file that an earlier attempt left in the staging directory is gone: the stage has
  removed and recreated the directory. And where a regular file has the name of the
  staging directory, \<open>os.makedirs\<close> raises \<open>OSError\<close> with the two fields still unassigned:
  the only assignment made so far is that of \<open>url_list\<close>.
\<close>

theorem prepare_touches_filesystem_unassigned:
  "item_dir (fresh_item ''a.com,b.com'' ''data'') = None
   \<and> warc_file_base (fresh_item ''a.com,b.com'' ''data'') = None
   \<and> fst (PrepareDirectories_process ''ptch'' noon
        (fresh_item ''a.com,b.com'' ''data'', stale_fs (sha1_hexdigest ''a.com,b.com''))) = Done
   \<and> node_at (stale_fs (sha1_hexdigest ''a.com,b.com''))
        (''data/'' @ sha1_hexdigest ''a.com,b.com'' @ ''/wget.log'') = Some (File ''old'')
   \<and> node_at (snd (snd (PrepareDirectories_process ''ptch'' noon
        (fresh_item ''a.com,b.com'' ''data'', stale_fs (sha1_hexdigest ''a.com,b.com'')))))
        (''data/'' @ sha1_hexdigest ''a.com,b.com'' @ ''/wget.log'') = None
   \<and> fst (PrepareDirectories_process ''ptch'' noon
        (fresh_item ''a.com,b.com'' ''data'', blocked_fs (sha1_hexdigest ''a.com,b.com'')))
      = Raised (OSError EEXIST)
   \<and> item_dir (fst (snd (PrepareDirectories_process ''ptch'' noon
        (fresh_item ''a.com,b.com'' ''data'', blocked_fs (sha1_hexdigest ''a.com,b.com'')))))
      = None
   \<and> warc_file_base (fst (snd (PrepareDirectories_process ''ptch'' noon
        (fresh_item ''a.com,b.com'' ''data'', blocked_fs (sha1_hexdigest ''a.com,b.com'')))))
      = None
   \<and> assigned (fst (snd (PrepareDirectories_process ''ptch'' noon
        (fresh_item ''a.com,b.com'' ''data'', blocked_fs (sha1_hexdigest ''a.com,b.com'')))))
      = [''url_list'']"
proof -
  let ?n = "''a.com,b.com''"
  let ?H = "sha1_hexdigest ?n"
  let ?X = "PrepareDirectories_process ''ptch'' noon (fresh_item ?n ''data'', stale_fs ?H)"
  let ?Y = "PrepareDirectories_process ''ptch'' noon (fresh_item ?n ''data'', blocked_fs ?H)"
  have wp: "CHR ''/'' \<notin> set ''ptch''" by simp
  have r: "resolve [] (''data/'' @ ?H @ ''/wget.log'') = [''data'', ?H, ''wget.log'']"
    using resolve_example_staged [of ?n "''wget.log''"] plain_wget_log by simp
  have old: "node_at (stale_fs ?H) (''data/'' @ ?H @ ''/wget.log'') = Some (File ''old'')"
    using r by (simp add: node_at_def stale_fs_def)
  have c: "cwd (snd (snd ?X)) = []"
    using prepare_Done_cwd [OF example_prepared [of noon ?n]] by (simp add: stale_fs_def)
  have rd: "resolve [] (dirname_of (fresh_item ?n ''data'')) = [''data'', ?H]"
    using resolve_dirname [of "[]" "fresh_item ?n ''data''"]
    by (simp add: base_path_data fresh_item_def)
  have "node_at (snd (snd ?X)) (dirname_of (fresh_item ?n ''data''))
      = Some (Dir (fmupd (warc_gz_of ''ptch'' noon (fresh_item ?n ''data'')) (File []) fmempty))"
    by (rule prepare_Done_staging [OF example_prepared wp])
  then have l: "lookup (root (snd (snd ?X))) [''data'', ?H]
      = Some (Dir (fmupd (''ptch-'' @ ?H @ ''-20131227-120000.warc.gz'') (File []) fmempty))"
    using c rd by (simp add: node_at_def dirname_of_ne example_warc_gz)
  have "lookup (root (snd (snd ?X))) ([''data'', ?H] @ [''wget.log''])
      = (case lookup (root (snd (snd ?X))) [''data'', ?H] of
           None \<Rightarrow> None | Some n \<Rightarrow> lookup n [''wget.log''])"
    by (rule lookup_append)
  then have "lookup (root (snd (snd ?X))) ([''data'', ?H] @ [''wget.log'']) = None"
    unfolding l by simp
  then have new: "node_at (snd (snd ?X)) (''data/'' @ ?H @ ''/wget.log'') = None"
    using r c by (simp add: node_at_def)
  have first: "item_dir (fresh_item ?n ''data'') = None
      \<and> warc_file_base (fresh_item ?n ''data'') = None \<and> fst ?X = Done
      \<and> node_at (stale_fs ?H) (''data/'' @ ?H @ ''/wget.log'') = Some (File ''old'')
      \<and> node_at (snd (snd ?X)) (''data/'' @ ?H @ ''/wget.log'') = None"
    using old new example_run_Done [of noon ?n] by (simp add: fresh_item_def)
  have Y: "?Y = (Raised (OSError EEXIST), logged_item (fresh_item ?n ''data''), blocked_fs ?H)"
    by (rule example_blocked)
  have second: "fst ?Y = Raised (OSError EEXIST) \<and> item_dir (fst (snd ?Y)) = None
      \<and> warc_file_base (fst (snd ?Y)) = None \<and> assigned (fst (snd ?Y)) = [''url_list'']"
    unfolding Y by (simp add: logged_item_def fresh_item_def)
  from first second show ?thesis by blast
qed

text \<open>
  C8, amended: \<open>item_dir\<close> and \<open>warc_file_base\<close> are assigned exactly once, by
  \<open>PrepareDirectories.process\<close>, after that stage's own calls of \<open>os.path.isdir\<close>,
  \<open>shutil.rmtree\<close> and \<open>os.makedirs\<close> and before it creates the placeholder, and are
  never mutated by any later stage of the pipeline. A run of the stage ends in one of
  three ways. When a call on the staging directory raises (\<open>OSError\<close>), both fields are as
  they were and the history of assignments has no new entry for either: those calls come
  before the assignments. When the stage completes, or \<open>open\<close> raises on the placeholder
  (\<open>IOError\<close>), both fields have their values and the history has gained one entry for
  each: the placeholder comes after the assignments. And however many of the stages that
  follow \<open>PrepareDirectories\<close> in the pipeline are run on the item, in any world, at any
  time and on any filesystem, the two fields and the history of assignments are as
  \<open>PrepareDirectories\<close> left them; so is the whole item after \<open>MoveFiles.process\<close>,
  whatever its outcome.
\<close>

theorem item_dir_and_warc_file_base_assigned_once:
  assumes "PrepareDirectories_process wp now (it, fs) = (r, it1, fs1)"
  shows "(r = Done \<or> (\<exists>e. r = Raised (OSError e)) \<or> (\<exists>e. r = Raised (IOError e)))
    \<and> ((\<exists>e. r = Raised (OSError e)) \<longrightarrow>
          item_dir it1 = item_dir it \<and> warc_file_base it1 = warc_file_base it
          \<and> count_list (assigned it1) ''item_dir'' = count_list (assigned it) ''item_dir''
          \<and> count_list (assigned it1) ''warc_file_base''
              = count_list (assigned it) ''warc_file_base'')
    \<and> (r = Done \<or> (\<exists>e. r = Raised (IOError e)) \<longrightarrow>
          item_dir it1 = Some (data_dir it @ ''/'' @ sha1_hexdigest (item_name it))
          \<and> warc_file_base it1
              = Some (wp @ ''-'' @ sha1_hexdigest (item_name it) @ ''-'' @ strftime_Ymd_HMS now)
          \<and> count_list (assigned it1) ''item_dir''
              = count_list (assigned it) ''item_dir'' + 1
          \<and> count_list (assigned it1) ''warc_file_base''
              = count_list (assigned it) ''warc_file_base'' + 1)
    \<and> (\<forall>w t n fs2.
          item_dir (fst (snd (run_stages w t (take n (tl pipeline)) (it1, fs2))))
            = item_dir it1
          \<and> warc_file_base (fst (snd (run_stages w t (take n (tl pipeline)) (it1, fs2))))
            = warc_file_base it1
          \<and> assigned (fst (snd (run_stages w t (take n (tl pipeline)) (it1, fs2))))
            = assigned it1)
    \<and> (\<forall>fs2. fst (snd (MoveFiles_process (it1, fs2))) = it1)"
proof -
  have logged: "item_dir (logged_item it) = item_dir it
      \<and> warc_file_base (logged_item it) = warc_file_base it
      \<and> count_list (assigned (logged_item it)) ''item_dir''
          = count_list (assigned it) ''item_dir''
      \<and> count_list (assigned (logged_item it)) ''warc_file_base''
          = count_list (assigned it) ''warc_file_base''"
    by (simp add: logged_item_def)
  have prepared: "item_dir (prepared_item wp now it)
        = Some (data_dir it @ ''/'' @ sha1_hexdigest (item_name it))
      \<and> warc_file_base (prepared_item wp now it)
        = Some (wp @ ''-'' @ sha1_hexdigest (item_name it) @ ''-'' @ strftime_Ymd_HMS now)
      \<and> count_list (assigned (prepared_item wp now it)) ''item_dir''
          = count_list (assigned it) ''item_dir'' + 1
      \<and> count_list (assigned (prepared_item wp now it)) ''warc_file_base''
          = count_list (assigned it) ''warc_file_base'' + 1"
    by (simp add: prepared_item_def dirname_of_def warc_file_base_of_def)
  have cases: "r = Done \<and> it1 = prepared_item wp now it
      \<or> (\<exists>e. r = Raised (OSError e)) \<and> it1 = logged_item it
      \<or> (\<exists>e. r = Raised (IOError e)) \<and> it1 = prepared_item wp now it"
  proof (cases r)
    case Done
    with assms have "it1 = prepared_item wp now it" by (auto elim: prepare_DoneE)
    with Done show ?thesis by simp
  next
    case (Raised e)
    with assms show ?thesis using prepare_Raised [of wp now it fs e it1 fs1] by auto
  qed
  have later: "\<forall>w t n fs2.
      item_dir (fst (snd (run_stages w t (take n (tl pipeline)) (it1, fs2)))) = item_dir it1
      \<and> warc_file_base (fst (snd (run_stages w t (take n (tl pipeline)) (it1, fs2))))
        = warc_file_base it1
      \<and> assigned (fst (snd (run_stages w t (take n (tl pipeline)) (it1, fs2))))
        = assigned it1"
    using run_stages_keep [OF later_stages_of_pipeline] by simp
  have mv: "\<forall>fs2. fst (snd (MoveFiles_process (it1, fs2))) = it1"
    by (simp add: MoveFiles_item)
  from cases show ?thesis
  proof (elim disjE conjE)
    assume "r = Done" and "it1 = prepared_item wp now it"
    then show ?thesis using prepared later mv by simp
  next
    assume "\<exists>e. r = Raised (OSError e)" and "it1 = logged_item it"
    then show ?thesis using logged later mv by auto
  next
    assume "\<exists>e. r = Raised (IOError e)" and "it1 = prepared_item wp now it"
    then show ?thesis using prepared later mv by auto
  qed
qed

theorem item_dir_and_warc_file_base_assigned_once_witness:
  "fst (PrepareDirectories_process ''ptch'' noon
      (fresh_item ''a.com,b.com'' ''data'', stale_fs (sha1_hexdigest ''a.com,b.com''))) = Done
   \<and> item_dir (fst (snd (PrepareDirectories_process ''ptch'' noon
      (fresh_item ''a.com,b.com'' ''data'', stale_fs (sha1_hexdigest ''a.com,b.com'')))))
     = Some (''data/'' @ sha1_hexdigest ''a.com,b.com'')
   \<and> count_list (assigned (fst (snd (PrepareDirectories_process ''ptch'' noon
      (fresh_item ''a.com,b.com'' ''data'', stale_fs (sha1_hexdigest ''a.com,b.com''))))))
       ''item_dir'' = 1
   \<and> count_list (assigned (fst (snd (PrepareDirectories_process ''ptch'' noon
      (fresh_item ''a.com,b.com'' ''data'', stale_fs (sha1_hexdigest ''a.com,b.com''))))))
       ''warc_file_base'' = 1
   \<and> item_dir (fst (snd (run_stages quiet_world later (take 5 (tl pipeline))
        (fst (snd (PrepareDirectories_process ''ptch'' noon
           (fresh_item ''a.com,b.com'' ''data'', stale_fs (sha1_hexdigest ''a.com,b.com'')))),
         fetched_fs (sha1_hexdigest ''a.com,b.com'')
           (''ptch-'' @ sha1_hexdigest ''a.com,b.com'' @ ''-20131227-120000.warc.gz'')))))
     = Some (''data/'' @ sha1_hexdigest ''a.com,b.com'')
   \<and> fst (snd (MoveFiles_process
        (fst (snd (PrepareDirectories_process ''ptch'' noon
           (fresh_item ''a.com,b.com'' ''data'', stale_fs (sha1_hexdigest ''a.com,b.com'')))),
         fetched_fs (sha1_hexdigest ''a.com,b.com'')
           (''ptch-'' @ sha1_hexdigest ''a.com,b.com'' @ ''-20131227-120000.warc.gz''))))
     = fst (snd (PrepareDirectories_process ''ptch'' noon
        (fresh_item ''a.com,b.com'' ''data'', stale_fs (sha1_hexdigest ''a.com,b.com''))))
   \<and> fst (PrepareDirectories_process ''ptch'' noon
      (fresh_item ''a.com,b.com'' ''data'', blocked_fs (sha1_hexdigest ''a.com,b.com'')))
     = Raised (OSError EEXIST)
   \<and> item_dir (fst (snd (PrepareDirectories_process ''ptch'' noon
      (fresh_item ''a.com,b.com'' ''data'', blocked_fs (sha1_hexdigest ''a.com,b.com'')))))
     = None
   \<and> count_list (assigned (fst (snd (PrepareDirectories_process ''ptch'' noon
      (fresh_item ''a.com,b.com'' ''data'', blocked_fs (sha1_hexdigest ''a.com,b.com''))))))
       ''item_dir'' = 0
   \<and> fst (PrepareDirectories_process ''a/b'' noon
      (fresh_item ''a.com,b.com'' ''data'', stale_fs (sha1_hexdigest ''a.com,b.com'')))
     = Raised (IOError ENOENT)
   \<and> item_dir (fst (snd (PrepareDirectories_process ''a/b'' noon
      (fresh_item ''a.com,b.com'' ''data'', stale_fs (sha1_hexdigest ''a.com,b.com'')))))
     = Some (''data/'' @ sha1_hexdigest ''a.com,b.com'')
   \<and> count_list (assigned (fst (snd (PrepareDirectories_process ''a/b'' noon
      (fresh_item ''a.com,b.com'' ''data'', stale_fs (sha1_hexdigest ''a.com,b.com''))))))
       ''warc_file_base'' = 1"
proof -
  let ?n = "''a.com,b.com''"
  let ?H = "sha1_hexdigest ?n"
  let ?it = "fresh_item ?n ''data''"
  let ?X = "PrepareDirectories_process ''ptch'' noon (?it, stale_fs ?H)"
  let ?Y = "PrepareDirectories_process ''ptch'' noon (?it, blocked_fs ?H)"
  let ?Z = "PrepareDirectories_process ''a/b'' noon (?it, stale_fs ?H)"
  let ?F = "fetched_fs ?H (''ptch-'' @ ?H @ ''-20131227-120000.warc.gz'')"
  have f: "item_dir ?it = None" "assigned ?it = []" "data_dir ?it = ''data''"
    "item_name ?it = ?n"
    by (simp_all add: fresh_item_def)
  have X: "fst ?X = Done" by (rule example_run_Done)
  have Y: "fst ?Y = Raised (OSError EEXIST)" by (simp add: example_blocked)
  have Z: "fst ?Z = Raised (IOError ENOENT)" by (rule example_open_fails)
  note TX = item_dir_and_warc_file_base_assigned_once [OF collapse3 [of ?X]]
  note TY = item_dir_and_warc_file_base_assigned_once [OF collapse3 [of ?Y]]
  note TZ = item_dir_and_warc_file_base_assigned_once [OF collapse3 [of ?Z]]
  from TX X have x1: "item_dir (fst (snd ?X)) = Some (''data/'' @ ?H)"
    and x2: "count_list (assigned (fst (snd ?X))) ''item_dir'' = 1"
    and x3: "count_list (assigned (fst (snd ?X))) ''warc_file_base'' = 1"
    by (simp_all add: f)
  from TX have "item_dir (fst (snd (run_stages quiet_world later (take 5 (tl pipeline))
      (fst (snd ?X), ?F)))) = item_dir (fst (snd ?X))"
    by blast
  then have x4: "item_dir (fst (snd (run_stages quiet_world later (take 5 (tl pipeline))
      (fst (snd ?X), ?F)))) = Some (''data/'' @ ?H)"
    using x1 by simp
  from TX have x5: "fst (snd (MoveFiles_process (fst (snd ?X), ?F))) = fst (snd ?X)"
    by blast
  from TY Y have y1: "item_dir (fst (snd ?Y)) = None"
    and y2: "count_list (assigned (fst (snd ?Y))) ''item_dir'' = 0"
    by (simp_all add: f)
  from TZ Z have z1: "item_dir (fst (snd ?Z)) = Some (''data/'' @ ?H)"
    and z2: "count_list (assigned (fst (snd ?Z))) ''warc_file_base'' = 1"
    by (simp_all add: f)
  from X x1 x2 x3 x4 x5 Y y1 y2 Z z1 z2 show ?thesis by simp
qed

subsection \<open>Exit codes, retries and the gate\<close>

lemma retry_policy_exhausts:
  assumes "\<forall>i. \<exists>f. stage i = RetryableFailure f" and "n < K"
  shows "\<exists>f. retry_policy K stage n = (K, FatalFailure f)"
  using assms(2)
proof (induction "K - n" arbitrary: n)
  case 0
  then show ?case by simp
next
  case (Suc d)
  from assms(1) obtain f where f: "stage n = RetryableFailure f" by blast
  show ?case
  proof (cases "Suc n < K")
    case True
    with Suc have "\<exists>f. retry_policy K stage (Suc n) = (K, FatalFailure f)" by simp
    then show ?thesis using f True by (subst retry_policy.simps) simp
  next
    case False
    with Suc.prems have "Suc n = K" by simp
    then show ?thesis using f by (subst retry_policy.simps) auto
  qed
qed

lemma retry_policy_first_success:
  "stage 0 = Success \<Longrightarrow> retry_policy K stage 0 = (1, Success)"
  by (subst retry_policy.simps) simp

text \<open>
  C2: with the acceptable exit codes that \<open>pipeline.py\<close> gives the fetch stage, an exit
  code of 0 or 8 of the downloader yields \<open>Success\<close> and any other exit code yields
  \<open>RetryableFailure\<close>; and when the first run of the downloader exits with 0 or 8 the
  retry policy returns \<open>Success\<close> after that one invocation.
\<close>

theorem fetch_exit_codes:
  "(code = 0 \<or> code = 8 \<longrightarrow> subprocess_runner accept_on_exit_code log_file code = Success)
   \<and> (code \<noteq> 0 \<and> code \<noteq> 8 \<longrightarrow>
        subprocess_runner accept_on_exit_code log_file code = RetryableFailure (code, log_file))
   \<and> (codes 0 = 0 \<or> codes 0 = 8 \<longrightarrow>
        retry_policy max_tries (\<lambda>i. subprocess_runner accept_on_exit_code log_file (codes i)) 0
          = (1, Success))"
proof -
  have "subprocess_runner accept_on_exit_code log_file (codes 0) = Success"
    if "codes 0 = 0 \<or> codes 0 = 8"
    using that by (auto simp: subprocess_runner_def accept_on_exit_code_def)
  then have "retry_policy max_tries
      (\<lambda>i. subprocess_runner accept_on_exit_code log_file (codes i)) 0 = (1, Success)"
    if "codes 0 = 0 \<or> codes 0 = 8"
    using that by (intro retry_policy_first_success) simp
  then show ?thesis by (auto simp: subprocess_runner_def accept_on_exit_code_def)
qed

theorem fetch_exit_codes_witness:
  "subprocess_runner accept_on_exit_code ''data/x/wget.log'' 0 = Success
   \<and> subprocess_runner accept_on_exit_code ''data/x/wget.log'' 8 = Success
   \<and> subprocess_runner accept_on_exit_code ''data/x/wget.log'' 4
       = RetryableFailure (4, ''data/x/wget.log'')
   \<and> retry_policy max_tries
        (\<lambda>i. subprocess_runner accept_on_exit_code ''data/x/wget.log'' (if i = 0 then 8 else 4)) 0
       = (1, Success)"
  using fetch_exit_codes [of 0 "''data/x/wget.log''" "\<lambda>i. if i = 0 then 8 else 4"]
    fetch_exit_codes [of 8 "''data/x/wget.log''" "\<lambda>i. if i = 0 then 8 else 4"]
    fetch_exit_codes [of 4 "''data/x/wget.log''" "\<lambda>i. if i = 0 then 8 else 4"]
  by simp

text \<open>
  C3: \<open>pipeline.py\<close> gives the fetch stage a maximum of 5 attempts; and a stage wrapped
  with a maximum of \<open>K\<close> attempts, \<open>K\<close> at least 1, that returns \<open>RetryableFailure\<close> at
  every invocation is invoked exactly \<open>K\<close> times, and the result is a \<open>FatalFailure\<close>.
\<close>

theorem retry_policy_invokes_K_times:
  assumes "0 < K" and "\<forall>i. \<exists>f. stage i = RetryableFailure f"
  shows "max_tries = 5 \<and> (\<exists>f. retry_policy K stage 0 = (K, FatalFailure f))"
  using retry_policy_exhausts [OF assms(2,1)] by (simp add: max_tries_def)

theorem retry_policy_invokes_K_times_witness:
  "0 < max_tries
   \<and> (\<exists>f. retry_policy max_tries
        (\<lambda>i. subprocess_runner accept_on_exit_code ''data/x/wget.log'' 4) 0
       = (5, FatalFailure f))"
proof -
  have a: "0 < max_tries" by (simp add: max_tries_def)
  have b: "\<forall>i. \<exists>f. subprocess_runner accept_on_exit_code ''data/x/wget.log'' 4
      = RetryableFailure f"
    by (simp add: subprocess_runner_def accept_on_exit_code_def)
  from retry_policy_invokes_K_times [OF a b] a show ?thesis by (simp add: max_tries_def)
qed

lemma gate_step_bound:
  "length (executing s) \<le> N \<Longrightarrow> length (executing (gate_step N s e)) \<le> N"
proof (cases e)
  case (Exit i)
  assume "length (executing s) \<le> N"
  moreover have "length (remove1 i (executing s)) \<le> length (executing s)"
    by (simp add: length_remove1)
  ultimately show ?thesis using Exit by simp
qed auto

lemma gate_run_bound:
  "length (executing s) \<le> N \<Longrightarrow> length (executing (foldl (gate_step N) s evs)) \<le> N"
  by (induction evs arbitrary: s) (simp_all add: gate_step_bound)

text \<open>
  C7: the ceiling of the upload stage's gate is the configuration value that
  \<open>pipeline.py\<close> declares with minimum 1, maximum 4 and default 1; and for every ceiling
  \<open>N\<close>, after any sequence of arrivals, entries and exits at the gate, at most \<open>N\<close> items
  are executing the gated stage.
\<close>

theorem gate_never_exceeds_ceiling:
  "cv_min rsync_threads = 1 \<and> cv_max rsync_threads = 4
   \<and> default_ceiling rsync_threads = Some 1
   \<and> valid_ceiling rsync_threads N = (1 \<le> N \<and> N \<le> 4)
   \<and> length (executing (run_gated N evs)) \<le> N"
proof -
  have "length (executing (run_gated N evs)) \<le> N"
    unfolding run_gated_def by (rule gate_run_bound) simp
  moreover have "default_ceiling rsync_threads = Some 1"
    by (simp add: default_ceiling_def rsync_threads_def)
  ultimately show ?thesis by (auto simp: valid_ceiling_def rsync_threads_def)
qed

theorem gate_never_exceeds_ceiling_witness:
  "valid_ceiling rsync_threads 1
   \<and> run_gated 1 [Arrive 1, Arrive 2, Enter 1, Enter 2]
       = \<lparr>waiting = [2], executing = [1]\<rparr>
   \<and> run_gated 1 [Arrive 1, Arrive 2, Enter 1, Enter 2, Exit 1, Enter 2]
       = \<lparr>waiting = [], executing = [2]\<rparr>
   \<and> length (executing (run_gated 1 [Arrive 1, Arrive 2, Enter 1, Enter 2])) \<le> 1"
  using gate_never_exceeds_ceiling [of 1 "[Arrive 1, Arrive 2, Enter 1, Enter 2]"]
  by (simp add: run_gated_def)

end
